theory Spec2Isabelle
  imports Complex_Main "HOL-Library.Sublist"
begin

section \<open>Data model\<close>

text \<open>
  The notebook \<^verbatim>\<open>model_deployment.ipynb\<close> defines a FastAPI application with three
  routes and a sequential load-test harness. JSON documents (request bodies, response
  bodies, the persisted results) are values of \<open>json\<close>; an object is the association
  list of a parsed Python dict (insertion order, keys distinct). Python floats are
  real numbers; their arithmetic is exact, except in the binary64 reading of the
  statistics (\<open>calculate_stats_f64\<close>), where every operation rounds.
\<close>

datatype json =
    JNull
  | JBool bool
  | JInt int
  | JNum real
  | JStr string
  | JArr "json list"
  | JObj "(string \<times> json) list"

text \<open>
  A raised Python exception (an instance of \<^verbatim>\<open>Exception\<close>): its class name and the
  value of \<^verbatim>\<open>str(e)\<close>. Signals that derive from \<^verbatim>\<open>BaseException\<close> only
  (KeyboardInterrupt, SystemExit) are not modelled.
\<close>

datatype py_exception = PyException (exc_class: string) (str: string)

abbreviation AssertionError :: py_exception where
  "AssertionError \<equiv> PyException ''AssertionError'' ''''"

abbreviation KeyError :: "string \<Rightarrow> py_exception" where
  "KeyError k \<equiv> PyException ''KeyError'' k"

abbreviation TypeError :: py_exception where
  "TypeError \<equiv> PyException ''TypeError'' ''''"

abbreviation ValueError :: "string \<Rightarrow> py_exception" where
  "ValueError m \<equiv> PyException ''ValueError'' m"

text \<open>\<^verbatim>\<open>fastapi.HTTPException(status_code=..., detail=...)\<close>.\<close>

datatype http_exception = HTTPException (status_code: nat) (detail: string)

text \<open>
  \<^verbatim>\<open>class TextRequest(BaseModel): text: str; max_length: Optional[int] = 100\<close> and
  \<^verbatim>\<open>class ImageRequest(BaseModel): image: str\<close>.
\<close>

record TextRequest =
  text' :: string
  max_length :: "int option"

record ImageRequest =
  image :: string

datatype http_method = GET | POST

datatype response = Response (status: nat) (content: json)

text \<open>
  Everything the notebook obtains from outside its own code. The clock and the library
  calls are indexed by a logical time (the number of \<^verbatim>\<open>time.time()\<close> readings taken
  so far), so that two calls with the same arguments may behave differently.
  \<^item> \<open>clock k\<close>: the value of the \<open>k\<close>-th call of \<^verbatim>\<open>time.time()\<close>;
  \<^item> \<open>coerce_str\<close>, \<open>coerce_int\<close>: what pydantic makes of a JSON value that is not
    already of the declared type (this depends on the pydantic version);
  \<^item> \<open>error_entry\<close>: pydantic's rendering of one validation error;
  \<^item> \<open>gpt_tokenizer\<close>, \<open>gpt_generate\<close>, \<open>gpt_decode\<close>: the three GPT-2 library calls
    of \<^verbatim>\<open>generate_text\<close> (\<open>gpt_generate\<close> returns the single sequence
    \<^verbatim>\<open>outputs[0]\<close>, as \<^verbatim>\<open>num_return_sequences=1\<close>);
  \<^item> \<open>image_open\<close>, \<open>vit_processor\<close>, \<open>vit_cls_shape\<close>: the image and model calls
    of \<^verbatim>\<open>process_image\<close>; \<open>vit_cls_shape\<close> is the forward pass followed by
    \<^verbatim>\<open>outputs.last_hidden_state[:, 0].cpu().detach().numpy().shape\<close>;
  \<^item> \<open>test_image\<close>: the string returned by \<^verbatim>\<open>create_test_image()\<close>;
  \<^item> \<open>timestamp k\<close>: \<^verbatim>\<open>datetime.now().strftime("%Y%m%d_%H%M%S")\<close> at time \<open>k\<close>.
\<close>

record ('img, 'tensor) env =
  clock :: "nat \<Rightarrow> real"
  coerce_str :: "json \<Rightarrow> string option"
  coerce_int :: "json \<Rightarrow> int option"
  error_entry :: "string \<Rightarrow> json"
  gpt_tokenizer :: "nat \<Rightarrow> string \<Rightarrow> py_exception + nat list"
  gpt_generate :: "nat \<Rightarrow> nat list \<Rightarrow> int option \<Rightarrow> py_exception + nat list"
  gpt_decode :: "nat \<Rightarrow> nat list \<Rightarrow> py_exception + string"
  image_open :: "nat \<Rightarrow> nat list \<Rightarrow> py_exception + 'img"
  vit_processor :: "nat \<Rightarrow> 'img \<Rightarrow> py_exception + 'tensor"
  vit_cls_shape :: "nat \<Rightarrow> 'tensor \<Rightarrow> py_exception + int list"
  test_image :: string
  timestamp :: "nat \<Rightarrow> string"

text \<open>
  The mutable world: the logical time, the files on disk, and the HTTP exchanges the
  test client has completed (method, path, response), oldest first.
\<close>

record state =
  step :: nat
  files :: "string \<rightharpoonup> json"
  exchanges :: "(http_method \<times> string \<times> response) list"

section \<open>The service\<close>

definition time_time :: "('i, 't) env \<Rightarrow> state \<Rightarrow> real \<times> state" where
  "time_time env st = (clock env (step st), st\<lparr>step := Suc (step st)\<rparr>)"

text \<open>Sequencing of calls that may raise: the first exception ends the block.\<close>

fun and_then :: "'e + 'a \<Rightarrow> ('a \<Rightarrow> 'e + 'b) \<Rightarrow> 'e + 'b" where
  "and_then (Inl e) f = Inl e"
| "and_then (Inr x) f = f x"

subsection \<open>Base64 decoding\<close>

text \<open>
  \<^verbatim>\<open>base64.b64decode(s)\<close> on a \<^verbatim>\<open>str\<close>, with the default \<^verbatim>\<open>validate=False\<close>:
  the string is encoded as ASCII (a \<^verbatim>\<open>ValueError\<close> when it has another character) and
  handed to \<^verbatim>\<open>binascii.a2b_base64\<close>, which skips every character outside the
  alphabet, decodes the others four at a time, stops at a complete padding and raises
  \<^verbatim>\<open>binascii.Error\<close> when the data characters end inside a group of four. Bytes are
  numbers below 256.
\<close>

definition b64_value :: "char \<Rightarrow> nat option" where
  "b64_value c =
     (let n = (of_char c :: nat) in
      if 65 \<le> n \<and> n \<le> 90 then Some (n - 65)
      else if 97 \<le> n \<and> n \<le> 122 then Some (n - 71)
      else if 48 \<le> n \<and> n \<le> 57 then Some (n + 4)
      else if n = 43 then Some 62
      else if n = 47 then Some 63
      else None)"

text \<open>A natural number in decimal, as \<^verbatim>\<open>%zd\<close> prints it.\<close>

function decimal :: "nat \<Rightarrow> string" where
  "decimal n =
     (if n < 10 then [''0123456789'' ! n]
      else decimal (n div 10) @ [''0123456789'' ! (n mod 10)])"
  by pat_completeness auto
termination
  by (relation "measure id") auto

declare decimal.simps [simp del]

text \<open>
  The decoder's loop: \<open>quad_pos\<close> is the position in the current group of four,
  \<open>leftchar\<close> the bits of the group not yet written, \<open>pads\<close> the padding characters
  seen since the last data character, \<open>out\<close> the bytes written so far.
\<close>

fun a2b_base64 :: "nat \<Rightarrow> nat \<Rightarrow> nat \<Rightarrow> nat list \<Rightarrow> string \<Rightarrow> py_exception + nat list" where
  "a2b_base64 quad_pos leftchar pads out [] =
     (if quad_pos = 0 then Inr out
      else if quad_pos = 1 then
        Inl (PyException ''binascii.Error''
               (''Invalid base64-encoded string: number of data characters (''
                @ decimal (length out div 3 * 4 + 1)
                @ '') cannot be 1 more than a multiple of 4''))
      else Inl (PyException ''binascii.Error'' ''Incorrect padding''))"
| "a2b_base64 quad_pos leftchar pads out (c # cs) =
     (if c = CHR ''='' then
        (if 2 \<le> quad_pos \<and> 4 \<le> quad_pos + (pads + 1) then Inr out
         else a2b_base64 quad_pos leftchar (if 2 \<le> quad_pos then pads + 1 else pads) out cs)
      else
        (case b64_value c of
           None \<Rightarrow> a2b_base64 quad_pos leftchar pads out cs
         | Some v \<Rightarrow>
             (if quad_pos = 0 then a2b_base64 1 v 0 out cs
              else if quad_pos = 1 then
                a2b_base64 2 (v mod 16) 0 (out @ [leftchar * 4 + v div 16]) cs
              else if quad_pos = 2 then
                a2b_base64 3 (v mod 4) 0 (out @ [leftchar * 16 + v div 4]) cs
              else a2b_base64 0 0 0 (out @ [leftchar * 64 + v]) cs)))"

definition b64decode :: "string \<Rightarrow> py_exception + nat list" where
  "b64decode s =
     (if list_ex (\<lambda>c. 128 \<le> (of_char c :: nat)) s
      then Inl (ValueError ''string argument should contain only ASCII characters'')
      else a2b_base64 0 0 0 [] s)"

subsection \<open>The handlers\<close>

text \<open>The statements of the \<^verbatim>\<open>try\<close> block of \<^verbatim>\<open>generate_text\<close> before the second clock reading.\<close>

definition generate_text_body ::
  "('i, 't) env \<Rightarrow> nat \<Rightarrow> TextRequest \<Rightarrow> py_exception + string" where
  "generate_text_body env k request =
     and_then (gpt_tokenizer env k (text' request)) (\<lambda>inputs.
     and_then (gpt_generate env k inputs (max_length request)) (\<lambda>outputs.
     gpt_decode env k outputs))"

definition generate_text ::
  "('i, 't) env \<Rightarrow> TextRequest \<Rightarrow> state \<Rightarrow> (http_exception + json) \<times> state" where
  "generate_text env request st =
     (let (start_time, st1) = time_time env st in
      case generate_text_body env (step st1) request of
        Inl e \<Rightarrow> (Inl (HTTPException 500 (str e)), st1)
      | Inr generated_text \<Rightarrow>
          (let (now, st2) = time_time env st1;
               process_time = now - start_time
           in (Inr (JObj [(''generated_text'', JStr generated_text),
                          (''processing_time'', JNum process_time)]), st2)))"

text \<open>The statements of the \<^verbatim>\<open>try\<close> block of \<^verbatim>\<open>process_image\<close> before the second clock reading.\<close>

definition process_image_body ::
  "('i, 't) env \<Rightarrow> nat \<Rightarrow> ImageRequest \<Rightarrow> py_exception + int list" where
  "process_image_body env k request =
     and_then (b64decode (image request)) (\<lambda>image_bytes.
     and_then (image_open env k image_bytes) (\<lambda>img.
     and_then (vit_processor env k img) (\<lambda>inputs.
     vit_cls_shape env k inputs)))"

definition process_image ::
  "('i, 't) env \<Rightarrow> ImageRequest \<Rightarrow> state \<Rightarrow> (http_exception + json) \<times> state" where
  "process_image env request st =
     (let (start_time, st1) = time_time env st in
      case process_image_body env (step st1) request of
        Inl e \<Rightarrow> (Inl (HTTPException 500 (str e)), st1)
      | Inr shape \<Rightarrow>
          (let (now, st2) = time_time env st1;
               process_time = now - start_time
           in (Inr (JObj [(''embedding_shape'', JArr (map JInt shape)),
                          (''processing_time'', JNum process_time)]), st2)))"

definition health_check :: "state \<Rightarrow> (http_exception + json) \<times> state" where
  "health_check st = (Inr (JObj [(''status'', JStr ''healthy'')]), st)"

subsection \<open>Request validation and routing\<close>

text \<open>
  The routes are declared with \<^verbatim>\<open>@app.post\<close> and \<^verbatim>\<open>@app.get\<close>, and the two POST
  handlers take a pydantic model as their parameter. FastAPI then validates the JSON
  body against the model before the handler runs and answers 422 when it does not
  validate; a value a handler returns becomes a 200 response and an
  \<^verbatim>\<open>HTTPException\<close> a response of its status with the body \<^verbatim>\<open>{"detail": ...}\<close>.
  A field validator accepts a value of the declared JSON type as it is.
\<close>

definition str_validator :: "('i, 't) env \<Rightarrow> json \<Rightarrow> string option" where
  "str_validator env v = (case v of JStr s \<Rightarrow> Some s | _ \<Rightarrow> coerce_str env v)"

definition int_validator :: "('i, 't) env \<Rightarrow> json \<Rightarrow> int option" where
  "int_validator env v = (case v of JInt n \<Rightarrow> Some n | _ \<Rightarrow> coerce_int env v)"

text \<open>A required field of type \<^verbatim>\<open>str\<close>: the errors, or the value.\<close>

definition required_str ::
  "('i, 't) env \<Rightarrow> (string \<times> json) list \<Rightarrow> string \<Rightarrow> string list + string" where
  "required_str env flds name =
     (case map_of flds name of
        None \<Rightarrow> Inl [name]
      | Some v \<Rightarrow> (case str_validator env v of None \<Rightarrow> Inl [name] | Some s \<Rightarrow> Inr s))"

text \<open>
  A field \<^verbatim>\<open>Optional[int] = d\<close>: the default when the key is absent, \<^verbatim>\<open>None\<close> for
  an explicit null, the validated integer otherwise.
\<close>

definition optional_int ::
  "('i, 't) env \<Rightarrow> (string \<times> json) list \<Rightarrow> string \<Rightarrow> int \<Rightarrow> string list + int option" where
  "optional_int env flds name d =
     (case map_of flds name of
        None \<Rightarrow> Inr (Some d)
      | Some JNull \<Rightarrow> Inr None
      | Some v \<Rightarrow> (case int_validator env v of None \<Rightarrow> Inl [name] | Some n \<Rightarrow> Inr (Some n)))"

definition errors_of :: "string list + 'a \<Rightarrow> string list" where
  "errors_of r = (case r of Inl es \<Rightarrow> es | Inr _ \<Rightarrow> [])"

definition parse_TextRequest :: "('i, 't) env \<Rightarrow> json \<Rightarrow> string list + TextRequest" where
  "parse_TextRequest env body =
     (case body of
        JObj flds \<Rightarrow>
          (case (required_str env flds ''text'', optional_int env flds ''max_length'' 100) of
             (Inr t, Inr m) \<Rightarrow> Inr \<lparr>text' = t, max_length = m\<rparr>
           | (rt, rm) \<Rightarrow> Inl (errors_of rt @ errors_of rm))
      | _ \<Rightarrow> Inl [''body''])"

definition parse_ImageRequest :: "('i, 't) env \<Rightarrow> json \<Rightarrow> string list + ImageRequest" where
  "parse_ImageRequest env body =
     (case body of
        JObj flds \<Rightarrow>
          (case required_str env flds ''image'' of
             Inr s \<Rightarrow> Inr \<lparr>image = s\<rparr>
           | Inl es \<Rightarrow> Inl es)
      | _ \<Rightarrow> Inl [''body''])"

definition validation_error_response :: "('i, 't) env \<Rightarrow> string list \<Rightarrow> response" where
  "validation_error_response env es =
     Response 422 (JObj [(''detail'', JArr (map (error_entry env) es))])"

fun to_response :: "http_exception + json \<Rightarrow> response" where
  "to_response (Inr body) = Response 200 body"
| "to_response (Inl (HTTPException code d)) = Response code (JObj [(''detail'', JStr d)])"

text \<open>
  The application: the three declared routes; another method on a declared path is
  405 and an undeclared path 404 (the router's defaults).
\<close>

definition app ::
  "('i, 't) env \<Rightarrow> http_method \<Rightarrow> string \<Rightarrow> json \<Rightarrow> state \<Rightarrow> response \<times> state" where
  "app env m path body st =
     (if path = ''/generate_text'' then
        (if m = POST then
           (case parse_TextRequest env body of
              Inl es \<Rightarrow> (validation_error_response env es, st)
            | Inr request \<Rightarrow>
                (let (r, st') = generate_text env request st in (to_response r, st')))
         else (Response 405 (JObj [(''detail'', JStr ''Method Not Allowed'')]), st))
      else if path = ''/process_image'' then
        (if m = POST then
           (case parse_ImageRequest env body of
              Inl es \<Rightarrow> (validation_error_response env es, st)
            | Inr request \<Rightarrow>
                (let (r, st') = process_image env request st in (to_response r, st')))
         else (Response 405 (JObj [(''detail'', JStr ''Method Not Allowed'')]), st))
      else if path = ''/health'' then
        (if m = GET then (let (r, st') = health_check st in (to_response r, st'))
         else (Response 405 (JObj [(''detail'', JStr ''Method Not Allowed'')]), st))
      else (Response 404 (JObj [(''detail'', JStr ''Not Found'')]), st))"

section \<open>The load-test harness\<close>

text \<open>
  One entry of \<^verbatim>\<open>gpt_results\<close> or \<^verbatim>\<open>vit_results\<close>, and the dict that
  \<^verbatim>\<open>calculate_stats\<close> returns.
\<close>

record result =
  request_number :: int
  total_time :: real
  server_processing_time :: real

record statistics =
  average_total_time :: real
  average_processing_time :: real
  min_time :: real
  max_time :: real
  std_dev :: real

text \<open>
  \<^verbatim>\<open>client = TestClient(app)\<close>: a request is served in process and the call returns
  when the response is complete.
\<close>

definition client_request ::
  "('i, 't) env \<Rightarrow> http_method \<Rightarrow> string \<Rightarrow> json \<Rightarrow> state \<Rightarrow> response \<times> state" where
  "client_request env m path body st =
     (let (r, st') = app env m path body st
      in (r, st'\<lparr>exchanges := exchanges st' @ [(m, path, r)]\<rparr>))"

definition test_health :: "('i, 't) env \<Rightarrow> state \<Rightarrow> (py_exception + unit) \<times> state" where
  "test_health env st =
     (let (response, st1) = client_request env GET ''/health'' JNull st
      in if status response \<noteq> 200 then (Inl AssertionError, st1)
         else if content response \<noteq> JObj [(''status'', JStr ''healthy'')]
           then (Inl AssertionError, st1)
         else (Inr (), st1))"

text \<open>
  \<^verbatim>\<open>response.json()["processing_time"]\<close>. The harness stores whatever the key holds;
  the model stores a number, and a value that is not a number is a \<^verbatim>\<open>TypeError\<close>
  (no 200 response of the two POST routes has one).
\<close>

definition json_get :: "json \<Rightarrow> string \<Rightarrow> py_exception + json" where
  "json_get j k =
     (case j of
        JObj flds \<Rightarrow> (case map_of flds k of None \<Rightarrow> Inl (KeyError k) | Some v \<Rightarrow> Inr v)
      | _ \<Rightarrow> Inl TypeError)"

definition as_float :: "json \<Rightarrow> py_exception + real" where
  "as_float j = (case j of JNum x \<Rightarrow> Inr x | JInt n \<Rightarrow> Inr (of_int n) | _ \<Rightarrow> Inl TypeError)"

text \<open>
  The body of the two \<^verbatim>\<open>for i in range(100)\<close> loops, which differ in the path and
  the payload only: \<open>timed_calls env path payload is results st\<close> runs the iterations
  \<open>is\<close> on the list \<open>results\<close> built so far. A failed \<^verbatim>\<open>assert\<close> ends the run.
\<close>

fun timed_calls ::
  "('i, 't) env \<Rightarrow> string \<Rightarrow> json \<Rightarrow> nat list \<Rightarrow> result list \<Rightarrow> state
     \<Rightarrow> (py_exception + result list) \<times> state" where
  "timed_calls env path payload [] results st = (Inr results, st)"
| "timed_calls env path payload (i # rest) results st =
     (let (start_time, st1) = time_time env st;
          (response, st2) = client_request env POST path payload st1;
          (end_time, st3) = time_time env st2
      in if status response \<noteq> 200 then (Inl AssertionError, st3)
         else (case and_then (json_get (content response) ''processing_time'') as_float of
                 Inl e \<Rightarrow> (Inl e, st3)
               | Inr pt \<Rightarrow>
                   timed_calls env path payload rest
                     (results @ [\<lparr>request_number = int i + 1,
                                  total_time = end_time - start_time,
                                  server_processing_time = pt\<rparr>]) st3))"

subsection \<open>Statistics\<close>


fun np_min :: "real list \<Rightarrow> py_exception + real" where
  "np_min [] =
     Inl (ValueError ''zero-size array to reduction operation minimum which has no identity'')"
| "np_min (x # xs) = Inr (fold min xs x)"

fun np_max :: "real list \<Rightarrow> py_exception + real" where
  "np_max [] =
     Inl (ValueError ''zero-size array to reduction operation maximum which has no identity'')"
| "np_max (x # xs) = Inr (fold max xs x)"



subsection \<open>Statistics in binary64\<close>

text \<open>
  The same statistics with the rounding of IEEE 754 binary64, the type of NumPy's
  \<^verbatim>\<open>float64\<close>: every arithmetic operation returns the representable number nearest to
  the exact result, a tie going to the even significand. \<open>fl\<close> is that rounding:
  \<open>scale_down\<close> and \<open>scale_up\<close> bring the magnitude to a significand \<open>m\<close> with
  \<open>2 ^ 52 \<le> m < 2 ^ 53\<close> and a unit \<open>u\<close> (a power of two), and the result is the
  rounded significand times the unit. The exponent is not bounded: durations neither
  overflow nor reach the subnormal range.
\<close>

definition round_half_even :: "real \<Rightarrow> int" where
  "round_half_even x =
     (let f = \<lfloor>x\<rfloor>; r = x - of_int f
      in if r < 1 / 2 then f
         else if 1 / 2 < r then f + 1
         else if even f then f else f + 1)"

function scale_down :: "real \<Rightarrow> real \<Rightarrow> real \<times> real" where
  "scale_down m u = (if 2 ^ 53 \<le> m then scale_down (m / 2) (u * 2) else (m, u))"
  by pat_completeness auto
termination
proof (relation "measure (\<lambda>(m, u). nat \<lceil>m\<rceil>)")
  have half: "nat \<lceil>y / 2\<rceil> < nat \<lceil>y\<rceil>" if "1 < y" for y :: real
  proof -
    from that have c: "2 \<le> \<lceil>y\<rceil>" by (simp add: le_ceiling_iff)
    have "y \<le> of_int \<lceil>y\<rceil>" by simp
    moreover have "(2 :: real) \<le> of_int \<lceil>y\<rceil>" using c by linarith
    ultimately have "y / 2 \<le> of_int \<lceil>y\<rceil> - 1" by linarith
    then have "y / 2 \<le> of_int (\<lceil>y\<rceil> - 1)" by simp
    then have "\<lceil>y / 2\<rceil> \<le> \<lceil>y\<rceil> - 1" by (simp only: ceiling_le_iff)
    with c show ?thesis by simp
  qed
  fix m u :: real
  assume "2 ^ 53 \<le> m"
  then have "1 < m" by simp
  from half[OF this] show "((m / 2, u * 2), (m, u)) \<in> measure (\<lambda>(m, u). nat \<lceil>m\<rceil>)"
    by simp
qed simp

function scale_up :: "real \<Rightarrow> real \<Rightarrow> real \<times> real" where
  "scale_up m u = (if 0 < m \<and> m < 2 ^ 52 then scale_up (m * 2) (u / 2) else (m, u))"
  by pat_completeness auto
termination
proof (relation "measure (\<lambda>(m, u). nat \<lceil>2 ^ 52 / m\<rceil>)")
  have half: "nat \<lceil>y / 2\<rceil> < nat \<lceil>y\<rceil>" if "1 < y" for y :: real
  proof -
    from that have c: "2 \<le> \<lceil>y\<rceil>" by (simp add: le_ceiling_iff)
    have "y \<le> of_int \<lceil>y\<rceil>" by simp
    moreover have "(2 :: real) \<le> of_int \<lceil>y\<rceil>" using c by linarith
    ultimately have "y / 2 \<le> of_int \<lceil>y\<rceil> - 1" by linarith
    then have "y / 2 \<le> of_int (\<lceil>y\<rceil> - 1)" by simp
    then have "\<lceil>y / 2\<rceil> \<le> \<lceil>y\<rceil> - 1" by (simp only: ceiling_le_iff)
    with c show ?thesis by simp
  qed
  fix m u :: real
  assume a: "0 < m \<and> m < 2 ^ 52"
  define y where "y = 2 ^ 52 / m"
  from a have "1 < y" by (simp add: y_def)
  from half[OF this] have "nat \<lceil>y / 2\<rceil> < nat \<lceil>y\<rceil>" .
  moreover have "2 ^ 52 / (m * 2) = y / 2" by (simp add: y_def)
  ultimately show "((m * 2, u / 2), (m, u)) \<in> measure (\<lambda>(m, u). nat \<lceil>2 ^ 52 / m\<rceil>)"
    by (simp add: y_def)
qed simp

declare scale_down.simps [simp del]
declare scale_up.simps [simp del]

definition fl :: "real \<Rightarrow> real" where
  "fl x =
     (if x = 0 then 0
      else (let (m, u) = scale_down \<bar>x\<bar> 1;
                (m', u') = scale_up m u
            in sgn x * of_int (round_half_even m') * u'))"

definition fadd :: "real \<Rightarrow> real \<Rightarrow> real" where
  "fadd a b = fl (a + b)"

definition fsub :: "real \<Rightarrow> real \<Rightarrow> real" where
  "fsub a b = fl (a - b)"

definition fmul :: "real \<Rightarrow> real \<Rightarrow> real" where
  "fmul a b = fl (a * b)"

definition fdiv :: "real \<Rightarrow> real \<Rightarrow> real" where
  "fdiv a b = fl (a / b)"

definition fsqrt :: "real \<Rightarrow> real" where
  "fsqrt a = fl (sqrt a)"

text \<open>
  \<^verbatim>\<open>np.add.reduce\<close> on a contiguous \<^verbatim>\<open>float64\<close> array: NumPy's pairwise summation.
  Fewer than 8 numbers are added from left to right; up to 128 numbers are added into
  8 accumulators, which are combined as a tree before the remaining numbers are
  added; a longer list is cut near its middle, at a multiple of 8, and the sums of the
  two parts are added. The result is added to the initial value 0.
\<close>

definition seq_sum :: "real \<Rightarrow> real list \<Rightarrow> real" where
  "seq_sum res xs = foldl fadd res xs"

function blocks8 :: "real list \<Rightarrow> real list \<Rightarrow> real list \<times> real list" where
  "blocks8 r xs =
     (if 8 \<le> length xs then blocks8 (map2 fadd r (take 8 xs)) (drop 8 xs) else (r, xs))"
  by pat_completeness auto
termination
  by (relation "measure (\<lambda>(r, xs). length xs)") auto

declare blocks8.simps [simp del]

definition tree8 :: "real list \<Rightarrow> real" where
  "tree8 r =
     fadd (fadd (fadd (r ! 0) (r ! 1)) (fadd (r ! 2) (r ! 3)))
          (fadd (fadd (r ! 4) (r ! 5)) (fadd (r ! 6) (r ! 7)))"

function pairwise_sum :: "real list \<Rightarrow> real" where
  "pairwise_sum xs =
     (if length xs < 8 then seq_sum 0 xs
      else if length xs \<le> 128 then
        (case blocks8 (take 8 xs) (drop 8 xs) of (r, rest) \<Rightarrow> seq_sum (tree8 r) rest)
      else
        fadd (pairwise_sum (take (length xs div 2 - length xs div 2 mod 8) xs))
             (pairwise_sum (drop (length xs div 2 - length xs div 2 mod 8) xs)))"
  by pat_completeness auto
termination
  by (relation "measure length") auto

declare pairwise_sum.simps [simp del]

definition np_sum_f64 :: "real list \<Rightarrow> real" where
  "np_sum_f64 xs = fadd 0 (pairwise_sum xs)"

text \<open>
  \<^verbatim>\<open>np.mean\<close> divides the sum by the length. \<^verbatim>\<open>np.std\<close> subtracts the mean from each
  number, squares the differences, takes their mean and its square root.
  \<^verbatim>\<open>np.min\<close> and \<^verbatim>\<open>np.max\<close> compare without rounding, so \<open>np_min\<close> and \<open>np_max\<close>
  above serve here too.
\<close>

definition np_mean_f64 :: "real list \<Rightarrow> real" where
  "np_mean_f64 xs = fdiv (np_sum_f64 xs) (real (length xs))"

definition np_std_f64 :: "real list \<Rightarrow> real" where
  "np_std_f64 xs =
     (let arrmean = fdiv (np_sum_f64 xs) (real (length xs));
          x = map (\<lambda>a. fsub a arrmean) xs;
          x2 = map (\<lambda>v. fmul v v) x;
          ret = fdiv (np_sum_f64 x2) (real (length xs))
      in fsqrt ret)"

definition calculate_stats_f64 :: "result list \<Rightarrow> string \<Rightarrow> py_exception + statistics" where
  "calculate_stats_f64 results model_name =
     (let total_times = map total_time results;
          processing_times = map server_processing_time results
      in and_then (np_min total_times) (\<lambda>mn.
         and_then (np_max total_times) (\<lambda>mx.
           Inr \<lparr>average_total_time = np_mean_f64 total_times,
                average_processing_time = np_mean_f64 processing_times,
                min_time = mn,
                max_time = mx,
                std_dev = np_std_f64 total_times\<rparr>)))"

subsection \<open>The run\<close>

definition result_json :: "result \<Rightarrow> json" where
  "result_json r =
     JObj [(''request_number'', JInt (request_number r)),
           (''total_time'', JNum (total_time r)),
           (''server_processing_time'', JNum (server_processing_time r))]"

definition statistics_json :: "statistics \<Rightarrow> json" where
  "statistics_json s =
     JObj [(''average_total_time'', JNum (average_total_time s)),
           (''average_processing_time'', JNum (average_processing_time s)),
           (''min_time'', JNum (min_time s)),
           (''max_time'', JNum (max_time s)),
           (''std_dev'', JNum (std_dev s))]"

definition results_json ::
  "result list \<Rightarrow> statistics \<Rightarrow> result list \<Rightarrow> statistics \<Rightarrow> json" where
  "results_json gpt_results gpt_stats vit_results vit_stats =
     JObj [(''gpt'', JObj [(''individual_results'', JArr (map result_json gpt_results)),
                          (''statistics'', statistics_json gpt_stats)]),
           (''vit'', JObj [(''individual_results'', JArr (map result_json vit_results)),
                          (''statistics'', statistics_json vit_stats)])]"

definition gpt_payload :: json where
  "gpt_payload = JObj [(''text'', JStr ''Once upon a time''), (''max_length'', JInt 50)]"

definition vit_payload :: "('i, 't) env \<Rightarrow> json" where
  "vit_payload env = JObj [(''image'', JStr (test_image env))]"

text \<open>
  \<^verbatim>\<open>run_performance_tests\<close>, with the statistics as binary64 computes them. Opening
  the file with mode \<^verbatim>\<open>"w"\<close> replaces a file of that name; the write itself is taken
  to succeed.
\<close>

definition run_performance_tests ::
  "('i, 't) env \<Rightarrow> state \<Rightarrow> (py_exception + unit) \<times> state" where
  "run_performance_tests env st =
     (case test_health env st of
        (Inl e, st1) \<Rightarrow> (Inl e, st1)
      | (Inr _, st1) \<Rightarrow>
     (case timed_calls env ''/generate_text'' gpt_payload [0..<100] [] st1 of
        (Inl e, st2) \<Rightarrow> (Inl e, st2)
      | (Inr gpt_results, st2) \<Rightarrow>
     (case timed_calls env ''/process_image'' (vit_payload env) [0..<100] [] st2 of
        (Inl e, st3) \<Rightarrow> (Inl e, st3)
      | (Inr vit_results, st3) \<Rightarrow>
     (case calculate_stats_f64 gpt_results ''GPT'' of
        Inl e \<Rightarrow> (Inl e, st3)
      | Inr gpt_stats \<Rightarrow>
     (case calculate_stats_f64 vit_results ''ViT'' of
        Inl e \<Rightarrow> (Inl e, st3)
      | Inr vit_stats \<Rightarrow>
          (let results = results_json gpt_results gpt_stats vit_results vit_stats;
               name = ''test_results_'' @ timestamp env (step st3) @ ''.json''
           in (Inr (), st3\<lparr>files := (files st3)(name \<mapsto> results)\<rparr>)))))))"

section \<open>Example environments\<close>

text \<open>
  An environment in which the model calls succeed, generation returns the prompt cut
  at \<^verbatim>\<open>max_length\<close> tokens (20 for \<^verbatim>\<open>None\<close>), \<^verbatim>\<open>Image.open\<close> accepts the bytes
  that start with the PNG signature, the test image is a PNG of one red pixel and the
  clock advances by one second at each reading; and the state of a fresh process.
\<close>

definition example_env :: "(unit, unit) env" where
  "example_env =
     \<lparr>clock = (\<lambda>k. 1700000000 + real k),
      coerce_str = (\<lambda>_. None),
      coerce_int = (\<lambda>_. None),
      error_entry = JStr,
      gpt_tokenizer = (\<lambda>_ s. Inr (map of_char s)),
      gpt_generate = (\<lambda>_ toks m. Inr (take (case m of None \<Rightarrow> 20 | Some n \<Rightarrow> nat n) toks)),
      gpt_decode = (\<lambda>_ toks. Inr (map char_of toks)),
      image_open = (\<lambda>_ image_bytes.
        if take 8 image_bytes = [137, 80, 78, 71, 13, 10, 26, 10] then Inr ()
        else Inl (PyException ''PIL.UnidentifiedImageError''
                    ''cannot identify image file <_io.BytesIO object at 0x7f3c5a1b2c40>'')),
      vit_processor = (\<lambda>_ _. Inr ()),
      vit_cls_shape = (\<lambda>_ _. Inr [1, 768]),
      test_image =
        ''iVBORw0KGgoAAAANSUhEUgAAAAEAAAABCAIAAACQd1PeAAAADElEQVR42mP4z8AAAAMBAQD3A0FDAAAAAElFTkSuQmCC'',
      timestamp = (\<lambda>_. ''20240101_120000'')\<rparr>"

definition initial_state :: state where
  "initial_state = \<lparr>step = 0, files = Map.empty, exchanges = []\<rparr>"

text \<open>
  The same with a system clock that is set back by two and a half seconds between the
  third and the fourth reading (\<^verbatim>\<open>time.time()\<close> follows the system clock).
\<close>

definition clock_set_back_env :: "(unit, unit) env" where
  "clock_set_back_env =
     example_env\<lparr>clock := (\<lambda>k. if k < 3 then 1700000000 + real k else 1700000000 + real k - 5 / 2)\<rparr>"

text \<open>The same with a generation that runs out of memory from logical time 8 on.\<close>

definition out_of_memory_env :: "(unit, unit) env" where
  "out_of_memory_env =
     example_env\<lparr>gpt_generate :=
       (\<lambda>k toks _. if k < 8 then Inr toks
                   else Inl (PyException ''RuntimeError'' ''CUDA out of memory''))\<rparr>"

section \<open>Notions used in the statements\<close>

text \<open>
  The two POST routes, and what a completed exchange shows: its request line and its
  status.
\<close>

definition post_path :: "string \<Rightarrow> bool" where
  "post_path path \<longleftrightarrow> path = ''/generate_text'' \<or> path = ''/process_image''"

definition statuses :: "(http_method \<times> string \<times> response) list \<Rightarrow> nat list" where
  "statuses xs = map (\<lambda>x. status (snd (snd x))) xs"

definition requests ::
  "(http_method \<times> string \<times> response) list \<Rightarrow> (http_method \<times> string) list" where
  "requests xs = map (\<lambda>x. (fst x, fst (snd x))) xs"

text \<open>
  The records a loop appends when it starts at logical time \<open>s\<close> and every call
  succeeds: a call takes four clock readings, the client's at \<open>s\<close> and \<open>s + 3\<close> around
  the handler's at \<open>s + 1\<close> and \<open>s + 2\<close>.
\<close>

fun call_results :: "('i, 't) env \<Rightarrow> nat \<Rightarrow> nat list \<Rightarrow> result list" where
  "call_results env s [] = []"
| "call_results env s (i # rest) =
     \<lparr>request_number = int i + 1,
      total_time = clock env (s + 3) - clock env s,
      server_processing_time = clock env (s + 2) - clock env (s + 1)\<rparr>
     # call_results env (s + 4) rest"


text \<open>
  The statistics in the words of the specification: the arithmetic mean and the
  (population) standard deviation of a list of numbers.
\<close>

definition spec_mean :: "real list \<Rightarrow> real" where
  "spec_mean xs = (\<Sum>x\<leftarrow>xs. x) / real (length xs)"

definition spec_std_dev :: "real list \<Rightarrow> real" where
  "spec_std_dev xs = sqrt ((\<Sum>x\<leftarrow>xs. (x - spec_mean xs)\<^sup>2) / real (length xs))"

section \<open>Properties of the service\<close>

text \<open>
  C2. Every \<^verbatim>\<open>GET /health\<close> is answered with status 200 and the body
  \<^verbatim>\<open>{"status": "healthy"}\<close>, whatever the libraries, the clock, the request body and
  the state are; the handler has no failure branch (it returns a value, never an
  exception) and leaves the state as it is.
\<close>

theorem health_always_healthy:
  "app env GET ''/health'' body st = (Response 200 (JObj [(''status'', JStr ''healthy'')]), st)
   \<and> health_check st = (Inr (JObj [(''status'', JStr ''healthy'')]), st)"
  by (simp add: app_def health_check_def)

text \<open>What the two POST routes answer, case by case.\<close>

lemma app_post_generate_text:
  "app env POST ''/generate_text'' body st =
     (case parse_TextRequest env body of
        Inl es \<Rightarrow> (validation_error_response env es, st)
      | Inr request \<Rightarrow>
          (case generate_text_body env (Suc (step st)) request of
             Inl e \<Rightarrow> (Response 500 (JObj [(''detail'', JStr (str e))]), st\<lparr>step := Suc (step st)\<rparr>)
           | Inr g \<Rightarrow>
               (Response 200 (JObj [(''generated_text'', JStr g),
                  (''processing_time'', JNum (clock env (Suc (step st)) - clock env (step st)))]),
                st\<lparr>step := Suc (Suc (step st))\<rparr>)))"
  by (simp add: app_def generate_text_def time_time_def split: sum.splits)

lemma app_post_process_image:
  "app env POST ''/process_image'' body st =
     (case parse_ImageRequest env body of
        Inl es \<Rightarrow> (validation_error_response env es, st)
      | Inr request \<Rightarrow>
          (case process_image_body env (Suc (step st)) request of
             Inl e \<Rightarrow> (Response 500 (JObj [(''detail'', JStr (str e))]), st\<lparr>step := Suc (step st)\<rparr>)
           | Inr shape \<Rightarrow>
               (Response 200 (JObj [(''embedding_shape'', JArr (map JInt shape)),
                  (''processing_time'', JNum (clock env (Suc (step st)) - clock env (step st)))]),
                st\<lparr>step := Suc (Suc (step st))\<rparr>)))"
  by (simp add: app_def process_image_def time_time_def split: sum.splits)

lemma app_post_cases:
  assumes "post_path path"
  obtains (ok) flds where
      "app env POST path payload st = (Response 200 (JObj flds), st\<lparr>step := step st + 2\<rparr>)"
      "map_of flds ''processing_time'' = Some (JNum (clock env (step st + 1) - clock env (step st)))"
  | (failed) r n where
      "app env POST path payload st = (r, st\<lparr>step := step st + n\<rparr>)" "status r \<noteq> 200"
proof -
  from assms consider "path = ''/generate_text''" | "path = ''/process_image''"
    unfolding post_path_def by blast
  then show thesis
  proof cases
    case 1
    show thesis
    proof (cases "parse_TextRequest env payload")
      case (Inl es)
      have "app env POST path payload st = (validation_error_response env es, st\<lparr>step := step st + 0\<rparr>)"
        by (simp add: 1 app_post_generate_text Inl)
      then show thesis by (rule failed) (simp add: validation_error_response_def)
    next
      case (Inr request)
      show thesis
      proof (cases "generate_text_body env (Suc (step st)) request")
        case (Inl e)
        have "app env POST path payload st =
            (Response 500 (JObj [(''detail'', JStr (str e))]), st\<lparr>step := step st + 1\<rparr>)"
          by (simp add: 1 app_post_generate_text Inr Inl)
        then show thesis by (rule failed) simp
      next
        case g: (Inr g)
        show thesis
          by (rule ok[of "[(''generated_text'', JStr g),
                  (''processing_time'', JNum (clock env (Suc (step st)) - clock env (step st)))]"])
             (simp_all add: 1 app_post_generate_text Inr g)
      qed
    qed
  next
    case 2
    show thesis
    proof (cases "parse_ImageRequest env payload")
      case (Inl es)
      have "app env POST path payload st = (validation_error_response env es, st\<lparr>step := step st + 0\<rparr>)"
        by (simp add: 2 app_post_process_image Inl)
      then show thesis by (rule failed) (simp add: validation_error_response_def)
    next
      case (Inr request)
      show thesis
      proof (cases "process_image_body env (Suc (step st)) request")
        case (Inl e)
        have "app env POST path payload st =
            (Response 500 (JObj [(''detail'', JStr (str e))]), st\<lparr>step := step st + 1\<rparr>)"
          by (simp add: 2 app_post_process_image Inr Inl)
        then show thesis by (rule failed) simp
      next
        case g: (Inr shape)
        show thesis
          by (rule ok[of "[(''embedding_shape'', JArr (map JInt shape)),
                  (''processing_time'', JNum (clock env (Suc (step st)) - clock env (step st)))]"])
             (simp_all add: 2 app_post_process_image Inr g)
      qed
    qed
  qed
qed

lemma timed_calls_step_ok:
  assumes "app env POST path payload (st\<lparr>step := Suc (step st)\<rparr>)
             = (Response 200 (JObj flds), st\<lparr>step := step st + 3\<rparr>)"
    and "map_of flds ''processing_time'' = Some (JNum pt)"
  shows "\<exists>st3. timed_calls env path payload (i # rest) acc st =
           timed_calls env path payload rest
             (acc @ [\<lparr>request_number = int i + 1,
                      total_time = clock env (step st + 3) - clock env (step st),
                      server_processing_time = pt\<rparr>]) st3
         \<and> step st3 = step st + 4 \<and> files st3 = files st
         \<and> exchanges st3 = exchanges st @ [(POST, path, Response 200 (JObj flds))]"
proof -
  let ?st3 = "snd (time_time env (snd (client_request env POST path payload (snd (time_time env st)))))"
  show ?thesis
    by (rule exI[of _ ?st3])
       (use assms in \<open>simp add: time_time_def client_request_def json_get_def as_float_def\<close>)
qed

lemma timed_calls_step_failed:
  assumes "app env POST path payload (st\<lparr>step := Suc (step st)\<rparr>)
             = (r, st\<lparr>step := step st + n\<rparr>)"
    and "status r \<noteq> 200"
  shows "\<exists>st3. timed_calls env path payload (i # rest) acc st = (Inl AssertionError, st3)
         \<and> files st3 = files st \<and> exchanges st3 = exchanges st @ [(POST, path, r)]"
  using assms
  by (simp add: time_time_def client_request_def)

lemma timed_calls_step:
  assumes "post_path path"
  shows "(\<exists>st3 r. timed_calls env path payload (i # rest) acc st =
           timed_calls env path payload rest
             (acc @ [\<lparr>request_number = int i + 1,
                      total_time = clock env (step st + 3) - clock env (step st),
                      server_processing_time = clock env (step st + 2) - clock env (step st + 1)\<rparr>]) st3
         \<and> step st3 = step st + 4 \<and> files st3 = files st
         \<and> exchanges st3 = exchanges st @ [(POST, path, r)] \<and> status r = 200
         \<and> r = fst (app env POST path payload (st\<lparr>step := Suc (step st)\<rparr>)))
       \<or> (\<exists>st3 r. timed_calls env path payload (i # rest) acc st = (Inl AssertionError, st3)
         \<and> files st3 = files st \<and> exchanges st3 = exchanges st @ [(POST, path, r)]
         \<and> status r \<noteq> 200
         \<and> r = fst (app env POST path payload (st\<lparr>step := Suc (step st)\<rparr>)))"
proof (rule app_post_cases[OF assms, of env payload "st\<lparr>step := Suc (step st)\<rparr>"], goal_cases)
  case (1 flds)
  from timed_calls_step_ok[of env path payload st flds _ i rest acc] 1
  show ?case by (auto simp: add.commute)
next
  case (2 r n)
  from timed_calls_step_failed[of env path payload st r "Suc n" i rest acc] 2
  show ?case by auto
qed


lemma b64decode_test_image:
  "b64decode (test_image example_env) =
     Inr [137, 80, 78, 71, 13, 10, 26, 10, 0, 0, 0, 13, 73, 72, 68, 82, 0, 0, 0, 1, 0, 0, 0, 1, 8, 2, 0, 0, 0, 144, 119, 83, 222, 0, 0, 0, 12, 73, 68, 65, 84, 120, 218, 99, 248, 207, 192, 0, 0, 3, 1, 1, 0, 247, 3, 65, 67, 0, 0, 0, 0, 73, 69, 78, 68, 174, 66, 96, 130]"
  by (simp add: example_env_def b64decode_def b64_value_def)



text \<open>
  C1, as stated, fails: a \<^verbatim>\<open>POST /generate_text\<close> whose body lacks the required
  field \<^verbatim>\<open>text\<close> is rejected by the request validation with status 422, an error
  status other than 500, and the handler body never runs.
\<close>

theorem missing_field_is_422:
  "status (fst (app example_env POST ''/generate_text'' (JObj []) initial_state)) = 422"
  by (simp add: app_post_generate_text parse_TextRequest_def required_str_def optional_int_def
      errors_of_def validation_error_response_def)

text \<open>
  C1, amended. For every \<^verbatim>\<open>POST /generate_text\<close> or \<^verbatim>\<open>POST /process_image\<close> whose
  body validates against the declared request model: if the handler's \<^verbatim>\<open>try\<close> block
  raises an exception \<open>e\<close>, the response has status 500 and the body
  \<^verbatim>\<open>{"detail": str(e)}\<close>; otherwise the status is 200. So a validated request is
  answered with 200 or 500 and nothing else.
\<close>

theorem validated_post_is_200_or_500:
  "(parse_TextRequest env tbody = Inr treq \<longrightarrow>
      (case generate_text_body env (Suc (step st)) treq of
         Inl e \<Rightarrow> fst (app env POST ''/generate_text'' tbody st)
                    = Response 500 (JObj [(''detail'', JStr (str e))])
       | Inr g \<Rightarrow> status (fst (app env POST ''/generate_text'' tbody st)) = 200))
   \<and> (parse_ImageRequest env ibody = Inr ireq \<longrightarrow>
      (case process_image_body env (Suc (step st)) ireq of
         Inl e \<Rightarrow> fst (app env POST ''/process_image'' ibody st)
                    = Response 500 (JObj [(''detail'', JStr (str e))])
       | Inr shape \<Rightarrow> status (fst (app env POST ''/process_image'' ibody st)) = 200))"
  by (simp add: app_post_generate_text app_post_process_image split: sum.splits)

theorem validated_post_is_200_or_500_witness:
  "parse_TextRequest example_env gpt_payload
     = Inr \<lparr>text' = ''Once upon a time'', max_length = Some 50\<rparr>
   \<and> status (fst (app example_env POST ''/generate_text'' gpt_payload initial_state)) = 200
   \<and> parse_ImageRequest example_env (JObj [(''image'', JStr ''abc'')]) = Inr \<lparr>image = ''abc''\<rparr>
   \<and> fst (app example_env POST ''/process_image'' (JObj [(''image'', JStr ''abc'')]) initial_state)
       = Response 500 (JObj [(''detail'', JStr ''Incorrect padding'')])"
  using validated_post_is_200_or_500 [of example_env gpt_payload
      "\<lparr>text' = ''Once upon a time'', max_length = Some 50\<rparr>" initial_state
      "JObj [(''image'', JStr ''abc'')]" "\<lparr>image = ''abc''\<rparr>"]
  by (simp add: parse_TextRequest_def parse_ImageRequest_def required_str_def optional_int_def
      str_validator_def int_validator_def gpt_payload_def example_env_def
      generate_text_body_def process_image_body_def initial_state_def
      b64decode_def b64_value_def)




text \<open>
  C9. \<^verbatim>\<open>max_length\<close> is optional: a body with a valid \<^verbatim>\<open>text\<close> and no
  \<^verbatim>\<open>max_length\<close> key validates to \<^verbatim>\<open>max_length = 100\<close>, and the response is the
  one computed from the tokenizer, from \<^verbatim>\<open>gpt_model.generate\<close> called with
  \<^verbatim>\<open>max_length=100\<close> and from the decoder. Nothing but the field types is checked:
  for every string and every integer (also zero or a negative one) the body validates
  and the response is the one computed from \<^verbatim>\<open>generate\<close> called with that integer.
\<close>

theorem max_length_defaults_to_100:
  assumes "map_of flds ''text'' = Some tv"
    and "str_validator env tv = Some t"
    and "map_of flds ''max_length'' = None"
  shows "parse_TextRequest env (JObj flds) = Inr \<lparr>text' = t, max_length = Some 100\<rparr>
       \<and> app env POST ''/generate_text'' (JObj flds) st =
           (case gpt_tokenizer env (Suc (step st)) t of
              Inl e \<Rightarrow> (Response 500 (JObj [(''detail'', JStr (str e))]),
                        st\<lparr>step := Suc (step st)\<rparr>)
            | Inr inputs \<Rightarrow>
           (case gpt_generate env (Suc (step st)) inputs (Some 100) of
              Inl e \<Rightarrow> (Response 500 (JObj [(''detail'', JStr (str e))]),
                        st\<lparr>step := Suc (step st)\<rparr>)
            | Inr outputs \<Rightarrow>
           (case gpt_decode env (Suc (step st)) outputs of
              Inl e \<Rightarrow> (Response 500 (JObj [(''detail'', JStr (str e))]),
                        st\<lparr>step := Suc (step st)\<rparr>)
            | Inr generated_text \<Rightarrow>
                (Response 200
                   (JObj [(''generated_text'', JStr generated_text),
                          (''processing_time'',
                           JNum (clock env (Suc (step st)) - clock env (step st)))]),
                 st\<lparr>step := Suc (Suc (step st))\<rparr>))))
       \<and> (\<forall>s n. parse_TextRequest env (JObj [(''text'', JStr s), (''max_length'', JInt n)])
                  = Inr \<lparr>text' = s, max_length = Some n\<rparr>
              \<and> app env POST ''/generate_text''
                    (JObj [(''text'', JStr s), (''max_length'', JInt n)]) st =
                  (case gpt_tokenizer env (Suc (step st)) s of
                     Inl e \<Rightarrow> (Response 500 (JObj [(''detail'', JStr (str e))]),
                               st\<lparr>step := Suc (step st)\<rparr>)
                   | Inr inputs \<Rightarrow>
                  (case gpt_generate env (Suc (step st)) inputs (Some n) of
                     Inl e \<Rightarrow> (Response 500 (JObj [(''detail'', JStr (str e))]),
                               st\<lparr>step := Suc (step st)\<rparr>)
                   | Inr outputs \<Rightarrow>
                  (case gpt_decode env (Suc (step st)) outputs of
                     Inl e \<Rightarrow> (Response 500 (JObj [(''detail'', JStr (str e))]),
                               st\<lparr>step := Suc (step st)\<rparr>)
                   | Inr generated_text \<Rightarrow>
                       (Response 200
                          (JObj [(''generated_text'', JStr generated_text),
                                 (''processing_time'',
                                  JNum (clock env (Suc (step st)) - clock env (step st)))]),
                        st\<lparr>step := Suc (Suc (step st))\<rparr>)))))"
proof -
  have p: "parse_TextRequest env (JObj flds) = Inr \<lparr>text' = t, max_length = Some 100\<rparr>"
    using assms by (simp add: parse_TextRequest_def required_str_def optional_int_def)
  have v: "parse_TextRequest env (JObj [(''text'', JStr s), (''max_length'', JInt n)])
                  = Inr \<lparr>text' = s, max_length = Some n\<rparr>" for s n
    by (simp add: parse_TextRequest_def required_str_def optional_int_def
        str_validator_def int_validator_def)
  show ?thesis
    by (simp add: p v app_def generate_text_def generate_text_body_def time_time_def
        split: sum.splits)
qed

theorem max_length_defaults_to_100_witness:
  "map_of [(''text'', JStr (replicate 120 (CHR ''a'')))] ''max_length'' = None
   \<and> app example_env POST ''/generate_text''
         (JObj [(''text'', JStr (replicate 120 (CHR ''a'')))]) initial_state
       = (Response 200
            (JObj [(''generated_text'', JStr (replicate 100 (CHR ''a''))),
                   (''processing_time'', JNum 1)]),
          initial_state\<lparr>step := Suc (Suc (step initial_state))\<rparr>)
   \<and> app example_env POST ''/generate_text''
         (JObj [(''text'', JStr (replicate 120 (CHR ''a''))), (''max_length'', JInt 7)])
         initial_state
       = (Response 200
            (JObj [(''generated_text'', JStr (replicate 7 (CHR ''a''))),
                   (''processing_time'', JNum 1)]),
          initial_state\<lparr>step := Suc (Suc (step initial_state))\<rparr>)"
proof -
  have 1: "map_of [(''text'', JStr (replicate 120 (CHR ''a'')))] ''text''
             = Some (JStr (replicate 120 (CHR ''a'')))" by simp
  have 2: "str_validator example_env (JStr (replicate 120 (CHR ''a''))) = Some (replicate 120 (CHR ''a''))"
    by (simp add: str_validator_def)
  have 3: "map_of [(''text'', JStr (replicate 120 (CHR ''a'')))] ''max_length'' = None" by simp
  have g: "gpt_tokenizer example_env k s = Inr (map of_char s)"
    "gpt_generate example_env k toks (Some n) = Inr (take (nat n) toks)"
    "gpt_decode example_env k toks = Inr (map char_of toks)"
    "clock example_env (Suc (step initial_state)) - clock example_env (step initial_state) = 1"
    for k s toks n
    by (simp_all add: example_env_def initial_state_def)
  have c: "map char_of (take m (map (of_char :: char \<Rightarrow> nat) xs)) = take m xs" for m xs
    by (simp add: take_map o_def)
  have "char_of (97 :: nat) = char_of (of_char (CHR ''a'') :: nat)" by simp
  then have a: "char_of (97 :: nat) = CHR ''a''" by (simp only: char_of_char)
  from max_length_defaults_to_100 [OF 1 2 3, of initial_state] 3
  show ?thesis
    by (simp add: g c a)
qed

section \<open>Properties of the harness\<close>

subsection \<open>Statistics\<close>



lemma np_min_Min: "xs \<noteq> [] \<Longrightarrow> np_min xs = Inr (Min (set xs))"
proof (cases xs)
  case (Cons a list)
  show ?thesis using Min.set_eq_fold[of a list] by (simp add: Cons)
qed simp

lemma np_max_Max: "xs \<noteq> [] \<Longrightarrow> np_max xs = Inr (Max (set xs))"
proof (cases xs)
  case (Cons a list)
  show ?thesis using Max.set_eq_fold[of a list] by (simp add: Cons)
qed simp



lemma spec_std_dev_nonneg: "0 \<le> spec_std_dev xs"
proof -
  have "0 \<le> (\<Sum>x\<leftarrow>xs. (x - spec_mean xs)\<^sup>2)"
    by (rule sum_list_nonneg) auto
  then show ?thesis
    unfolding spec_std_dev_def by simp
qed





lemma fl_0: "fl 0 = 0"
  by (simp add: fl_def)






















subsection \<open>The loops\<close>

lemma timed_calls_outcome:
  assumes "post_path path"
  shows "\<exists>st' new. exchanges st' = exchanges st @ new \<and> files st' = files st
           \<and> requests new = replicate (length new) (POST, path)
           \<and> ((timed_calls env path payload is acc st
                  = (Inr (acc @ call_results env (step st) is), st')
                \<and> step st' = step st + 4 * length is
                \<and> statuses new = replicate (length is) 200)
             \<or> (timed_calls env path payload is acc st = (Inl AssertionError, st')
                \<and> new \<noteq> [] \<and> length new \<le> length is
                \<and> last (statuses new) \<noteq> 200
                \<and> butlast (statuses new) = replicate (length new - 1) 200))"
proof (induction "is" arbitrary: acc st)
  case Nil
  show ?case
    by (rule exI[of _ st], rule exI[of _ "[]"]) (simp add: requests_def statuses_def)
next
  case (Cons i rest)
  let ?r = "\<lparr>request_number = int i + 1,
             total_time = clock env (step st + 3) - clock env (step st),
             server_processing_time = clock env (step st + 2) - clock env (step st + 1)\<rparr>"
  from timed_calls_step[OF assms, of env payload i rest acc st]
  consider (ok) st3 r where
      "timed_calls env path payload (i # rest) acc st =
         timed_calls env path payload rest (acc @ [?r]) st3"
      "step st3 = step st + 4" "files st3 = files st"
      "exchanges st3 = exchanges st @ [(POST, path, r)]" "status r = 200"
    | (failed) st3 r where
      "timed_calls env path payload (i # rest) acc st = (Inl AssertionError, st3)"
      "files st3 = files st" "exchanges st3 = exchanges st @ [(POST, path, r)]"
      "status r \<noteq> 200"
    by blast
  then show ?case
  proof cases
    case ok
    from Cons.IH[of st3 "acc @ [?r]"] obtain st' new where
      new: "exchanges st' = exchanges st3 @ new" "files st' = files st3"
           "requests new = replicate (length new) (POST, path)"
      and alt: "(timed_calls env path payload rest (acc @ [?r]) st3
                  = (Inr ((acc @ [?r]) @ call_results env (step st3) rest), st')
                \<and> step st' = step st3 + 4 * length rest
                \<and> statuses new = replicate (length rest) 200)
             \<or> (timed_calls env path payload rest (acc @ [?r]) st3 = (Inl AssertionError, st')
                \<and> new \<noteq> [] \<and> length new \<le> length rest
                \<and> last (statuses new) \<noteq> 200
                \<and> butlast (statuses new) = replicate (length new - 1) 200)"
      by blast
    show ?thesis
    proof (rule exI[of _ st'], rule exI[of _ "(POST, path, r) # new"], intro conjI)
      show "exchanges st' = exchanges st @ (POST, path, r) # new"
        by (simp add: new ok)
      show "files st' = files st" by (simp add: new ok)
      show "requests ((POST, path, r) # new) = replicate (length ((POST, path, r) # new)) (POST, path)"
        using new(3) by (simp add: requests_def)
      from alt show "(timed_calls env path payload (i # rest) acc st
                  = (Inr (acc @ call_results env (step st) (i # rest)), st')
                \<and> step st' = step st + 4 * length (i # rest)
                \<and> statuses ((POST, path, r) # new) = replicate (length (i # rest)) 200)
             \<or> (timed_calls env path payload (i # rest) acc st = (Inl AssertionError, st')
                \<and> (POST, path, r) # new \<noteq> [] \<and> length ((POST, path, r) # new) \<le> length (i # rest)
                \<and> last (statuses ((POST, path, r) # new)) \<noteq> 200
                \<and> butlast (statuses ((POST, path, r) # new))
                    = replicate (length ((POST, path, r) # new) - 1) 200)"
      proof
        assume a: "timed_calls env path payload rest (acc @ [?r]) st3
                  = (Inr ((acc @ [?r]) @ call_results env (step st3) rest), st')
                \<and> step st' = step st3 + 4 * length rest
                \<and> statuses new = replicate (length rest) 200"
        then show ?thesis
          using ok by (simp add: statuses_def del: timed_calls.simps)
      next
        assume b: "timed_calls env path payload rest (acc @ [?r]) st3 = (Inl AssertionError, st')
                \<and> new \<noteq> [] \<and> length new \<le> length rest
                \<and> last (statuses new) \<noteq> 200
                \<and> butlast (statuses new) = replicate (length new - 1) 200"
        then have "new \<noteq> []" by simp
        then obtain x xs where "new = x # xs" by (cases new) auto
        with b show ?thesis
          using ok by (simp add: statuses_def del: timed_calls.simps)
      qed
    qed
  next
    case failed
    show ?thesis
      by (rule exI[of _ st3], rule exI[of _ "[(POST, path, r)]"])
         (simp add: failed requests_def statuses_def del: timed_calls.simps)
  qed
qed


declare timed_calls.simps [simp del]

lemma test_health_ok:
  "test_health env st =
     (Inr (), st\<lparr>exchanges := exchanges st @
        [(GET, ''/health'', Response 200 (JObj [(''status'', JStr ''healthy'')]))]\<rparr>)"
  by (simp add: test_health_def client_request_def app_def health_check_def)

lemma length_call_results: "length (call_results env s is) = length is"
  by (induction "is" arbitrary: s) simp_all

lemma call_results_append:
  "call_results env s (is1 @ is2) =
     call_results env s is1 @ call_results env (s + 4 * length is1) is2"
  by (induction is1 arbitrary: s) (simp_all add: add.assoc)



lemma call_results_mono:
  assumes "mono (clock env)" and "r \<in> set (call_results env s is)"
  shows "0 \<le> server_processing_time r \<and> server_processing_time r \<le> total_time r"
  using assms(2)
proof (induction "is" arbitrary: s)
  case Nil
  then show ?case by simp
next
  case (Cons i rest)
  have "clock env s \<le> clock env (s + 1)" "clock env (s + 1) \<le> clock env (s + 2)"
       "clock env (s + 2) \<le> clock env (s + 3)"
    using assms(1) by (simp_all add: mono_def)
  with Cons show ?case by auto
qed

lemma call_results_strict_mono:
  assumes "strict_mono (clock env)" and "r \<in> set (call_results env s is)"
  shows "0 < server_processing_time r \<and> server_processing_time r < total_time r"
  using assms(2)
proof (induction "is" arbitrary: s)
  case Nil
  then show ?case by simp
next
  case (Cons i rest)
  have "clock env s < clock env (s + 1)" "clock env (s + 1) < clock env (s + 2)"
       "clock env (s + 2) < clock env (s + 3)"
    using assms(1) by (simp_all add: strict_mono_def)
  with Cons show ?case by auto
qed

lemma timed_calls_Inr:
  assumes "post_path path"
    and "timed_calls env path payload is acc st = (Inr rs, st')"
  shows "rs = acc @ call_results env (step st) is \<and> files st' = files st
         \<and> step st' = step st + 4 * length is
         \<and> (\<exists>new. exchanges st' = exchanges st @ new
               \<and> requests new = replicate (length is) (POST, path)
               \<and> statuses new = replicate (length is) 200)"
proof -
  from timed_calls_outcome[OF assms(1), of st env payload "is" acc] assms(2)
  obtain st2 new where
    "exchanges st2 = exchanges st @ new" "files st2 = files st"
    "requests new = replicate (length new) (POST, path)"
    "timed_calls env path payload is acc st = (Inr (acc @ call_results env (step st) is), st2)"
    "step st2 = step st + 4 * length is"
    "statuses new = replicate (length is) 200"
    by auto
  moreover from this have "length new = length is"
    by (metis length_map length_replicate statuses_def)
  ultimately show ?thesis using assms(2) by auto
qed

lemma timed_calls_Inl:
  assumes "post_path path"
    and "timed_calls env path payload is acc st = (Inl e, st')"
  shows "e = AssertionError \<and> files st' = files st
         \<and> (\<exists>new. exchanges st' = exchanges st @ new
               \<and> new \<noteq> [] \<and> length new \<le> length is
               \<and> requests new = replicate (length new) (POST, path)
               \<and> last (statuses new) \<noteq> 200
               \<and> butlast (statuses new) = replicate (length new - 1) 200)"
  using timed_calls_outcome[OF assms(1), of st env payload "is" acc] assms(2)
  by auto

lemma timed_calls_append:
  "timed_calls env path payload (is1 @ is2) acc st =
     (case timed_calls env path payload is1 acc st of
        (Inl e, st1) \<Rightarrow> (Inl e, st1)
      | (Inr rs1, st1) \<Rightarrow> timed_calls env path payload is2 rs1 st1)"
proof (induction is1 arbitrary: acc st)
  case Nil
  show ?case by (simp add: timed_calls.simps)
next
  case (Cons i rest)
  show ?case
    by (simp add: timed_calls.simps Cons.IH Let_def split: prod.splits sum.splits)
qed

lemma timed_calls_prefix:
  assumes "post_path path"
    and "timed_calls env path payload (is1 @ is2) acc st = (Inr rs, st')"
  shows "\<exists>st1. timed_calls env path payload is1 acc st
                  = (Inr (acc @ call_results env (step st) is1), st1)
               \<and> files st1 = files st
               \<and> prefix (acc @ call_results env (step st) is1) rs"
proof (cases "timed_calls env path payload is1 acc st")
  case (Pair r st1)
  show ?thesis
  proof (cases r)
    case (Inl e)
    with Pair assms(2) show ?thesis by (simp add: timed_calls_append)
  next
    case (Inr rs1)
    from timed_calls_Inr[OF assms(1), of env payload is1 acc st rs1 st1] Pair Inr
    have 1: "rs1 = acc @ call_results env (step st) is1" "files st1 = files st" by auto
    from timed_calls_Inr[OF assms(1) assms(2)]
    have "rs = acc @ call_results env (step st) (is1 @ is2)" by simp
    then have "prefix (acc @ call_results env (step st) is1) rs"
      by (simp add: call_results_append)
    with 1 Pair Inr show ?thesis by simp
  qed
qed

lemma timed_calls_succeeds:
  assumes "post_path path"
    and "\<And>st. status (fst (app env POST path payload st)) = 200"
  shows "fst (timed_calls env path payload is acc st) = Inr (acc @ call_results env (step st) is)"
proof (induction "is" arbitrary: acc st)
  case Nil
  show ?case by (simp add: timed_calls.simps)
next
  case (Cons i rest)
  from timed_calls_step[OF assms(1), of env payload i rest acc st] assms(2)
  obtain st3 where
    "timed_calls env path payload (i # rest) acc st =
       timed_calls env path payload rest
         (acc @ [\<lparr>request_number = int i + 1,
                  total_time = clock env (step st + 3) - clock env (step st),
                  server_processing_time = clock env (step st + 2) - clock env (step st + 1)\<rparr>]) st3"
    "step st3 = step st + 4"
    by auto
  then show ?case by (simp add: Cons.IH)
qed

lemma calculate_stats_f64_total:
  assumes "results \<noteq> []"
  shows "\<exists>s. calculate_stats_f64 results model_name = Inr s"
proof -
  from assms have ne: "map total_time results \<noteq> []" by simp
  show ?thesis
    by (simp add: calculate_stats_f64_def Let_def np_min_Min[OF ne] np_max_Max[OF ne]
        del: set_map)
qed

lemma run_Inr:
  assumes "run_performance_tests env st = (Inr (), st')"
  shows "\<exists>st1 st2 st3 gpt_stats vit_stats.
      test_health env st = (Inr (), st1)
    \<and> timed_calls env ''/generate_text'' gpt_payload [0..<100] [] st1
        = (Inr (call_results env (step st) [0..<100]), st2)
    \<and> timed_calls env ''/process_image'' (vit_payload env) [0..<100] [] st2
        = (Inr (call_results env (step st + 400) [0..<100]), st3)
    \<and> calculate_stats_f64 (call_results env (step st) [0..<100]) ''GPT'' = Inr gpt_stats
    \<and> calculate_stats_f64 (call_results env (step st + 400) [0..<100]) ''ViT'' = Inr vit_stats
    \<and> files st3 = files st \<and> step st3 = step st + 800
    \<and> st' = st3\<lparr>files := (files st)
          (''test_results_'' @ timestamp env (step st + 800) @ ''.json'' \<mapsto>
           results_json (call_results env (step st) [0..<100]) gpt_stats
             (call_results env (step st + 400) [0..<100]) vit_stats)\<rparr>
    \<and> (\<exists>new. exchanges st3 = exchanges st
          @ (GET, ''/health'', Response 200 (JObj [(''status'', JStr ''healthy'')])) # new
          \<and> requests new = replicate 100 (POST, ''/generate_text'')
                @ replicate 100 (POST, ''/process_image'')
          \<and> statuses new = replicate 200 200)"
proof -
  let ?st1 = "st\<lparr>exchanges := exchanges st @
        [(GET, ''/health'', Response 200 (JObj [(''status'', JStr ''healthy'')]))]\<rparr>"
  have pp: "post_path ''/generate_text''" "post_path ''/process_image''"
    by (simp_all add: post_path_def)
  obtain r2 st2 where t2:
    "timed_calls env ''/generate_text'' gpt_payload [0..<100] [] ?st1 = (r2, st2)"
    by (cases "timed_calls env ''/generate_text'' gpt_payload [0..<100] [] ?st1")
  from assms t2 obtain G where G: "r2 = Inr G"
    by (cases r2) (simp_all add: run_performance_tests_def test_health_ok)
  from timed_calls_Inr[OF pp(1) t2[unfolded G]] obtain new2 where g:
    "G = call_results env (step st) [0..<100]" "files st2 = files st"
    "step st2 = step st + 400"
    "exchanges st2 = exchanges ?st1 @ new2"
    "requests new2 = replicate 100 (POST, ''/generate_text'')"
    "statuses new2 = replicate 100 200"
    by auto
  obtain r3 st3 where t3:
    "timed_calls env ''/process_image'' (vit_payload env) [0..<100] [] st2 = (r3, st3)"
    by (cases "timed_calls env ''/process_image'' (vit_payload env) [0..<100] [] st2")
  from assms t2 G t3 obtain V where V: "r3 = Inr V"
    by (cases r3) (simp_all add: run_performance_tests_def test_health_ok)
  from timed_calls_Inr[OF pp(2) t3[unfolded V]] obtain new3 where v:
    "V = call_results env (step st2) [0..<100]" "files st3 = files st2"
    "step st3 = step st2 + 400"
    "exchanges st3 = exchanges st2 @ new3"
    "requests new3 = replicate 100 (POST, ''/process_image'')"
    "statuses new3 = replicate 100 200"
    by auto
  have "G \<noteq> []" "V \<noteq> []"
    using g(1) v(1) length_call_results[of env "step st" "[0..<100]"]
      length_call_results[of env "step st2" "[0..<100]"] by auto
  then obtain gs vs where s: "calculate_stats_f64 G ''GPT'' = Inr gs" "calculate_stats_f64 V ''ViT'' = Inr vs"
    using calculate_stats_f64_total by blast
  have st': "st' = st3\<lparr>files := (files st3)
          (''test_results_'' @ timestamp env (step st3) @ ''.json'' \<mapsto> results_json G gs V vs)\<rparr>"
    using assms t2 G t3 V s by (simp add: run_performance_tests_def test_health_ok)
  have ex: "exchanges st3 = exchanges st
          @ (GET, ''/health'', Response 200 (JObj [(''status'', JStr ''healthy'')])) # (new2 @ new3)"
    using g(4) v(4) by simp
  have rq: "requests (new2 @ new3) = replicate 100 (POST, ''/generate_text'')
                @ replicate 100 (POST, ''/process_image'')"
    using g(5) v(5) by (simp add: requests_def)
  have "statuses (new2 @ new3) = replicate 100 200 @ replicate 100 200"
    using g(6) v(6) by (simp add: statuses_def)
  then have sq: "statuses (new2 @ new3) = replicate 200 200"
    by (simp add: replicate_add[symmetric])
  show ?thesis
    using test_health_ok[of env st] t2 G g(1,2,3) t3 V v(1,2,3) s st' ex rq sq
    by (auto simp: add.assoc)
qed

lemma run_Inl:
  assumes "run_performance_tests env st = (Inl e, st')"
  shows "e = AssertionError \<and> files st' = files st
    \<and> (\<exists>new. exchanges st' = exchanges st
          @ (GET, ''/health'', Response 200 (JObj [(''status'', JStr ''healthy'')])) # new
          \<and> new \<noteq> [] \<and> length new \<le> 200
          \<and> last (statuses new) \<noteq> 200
          \<and> butlast (statuses new) = replicate (length new - 1) 200)"
proof -
  let ?st1 = "st\<lparr>exchanges := exchanges st @
        [(GET, ''/health'', Response 200 (JObj [(''status'', JStr ''healthy'')]))]\<rparr>"
  have pp: "post_path ''/generate_text''" "post_path ''/process_image''"
    by (simp_all add: post_path_def)
  obtain r2 st2 where t2:
    "timed_calls env ''/generate_text'' gpt_payload [0..<100] [] ?st1 = (r2, st2)"
    by (cases "timed_calls env ''/generate_text'' gpt_payload [0..<100] [] ?st1")
  show ?thesis
  proof (cases r2)
    case (Inl e2)
    with assms t2 have "e = e2" "st' = st2"
      by (simp_all add: run_performance_tests_def test_health_ok)
    with timed_calls_Inl[OF pp(1) t2[unfolded Inl]] show ?thesis by auto
  next
    case G: (Inr G)
    from timed_calls_Inr[OF pp(1) t2[unfolded G]] obtain new2 where g:
      "G = call_results env (step st) [0..<100]" "files st2 = files st"
      "exchanges st2 = exchanges ?st1 @ new2"
      "statuses new2 = replicate 100 200"
      by auto
    then have l2: "length new2 = 100"
      by (metis length_map length_replicate statuses_def)
    obtain r3 st3 where t3:
      "timed_calls env ''/process_image'' (vit_payload env) [0..<100] [] st2 = (r3, st3)"
      by (cases "timed_calls env ''/process_image'' (vit_payload env) [0..<100] [] st2")
    show ?thesis
    proof (cases r3)
      case (Inl e3)
      with assms t2 G t3 have "e = e3" "st' = st3"
        by (simp_all add: run_performance_tests_def test_health_ok)
      with timed_calls_Inl[OF pp(2) t3[unfolded Inl]] obtain new3 where v:
        "e = AssertionError" "files st' = files st2" "exchanges st' = exchanges st2 @ new3"
        "new3 \<noteq> []" "length new3 \<le> 100" "last (statuses new3) \<noteq> 200"
        "butlast (statuses new3) = replicate (length new3 - 1) 200"
        by auto
      have n3: "statuses new3 \<noteq> []" using v(4) by (simp add: statuses_def)
      have "statuses (new2 @ new3) = statuses new2 @ statuses new3"
        by (simp add: statuses_def)
      then have "last (statuses (new2 @ new3)) \<noteq> 200"
        "butlast (statuses (new2 @ new3)) = replicate (length (new2 @ new3) - 1) 200"
        using n3 v(4,6,7) g(4) l2
        by (simp_all add: butlast_append replicate_add[symmetric])
      moreover have "exchanges st' = exchanges st
          @ (GET, ''/health'', Response 200 (JObj [(''status'', JStr ''healthy'')])) # (new2 @ new3)"
        using v(3) g(3) by simp
      moreover have "new2 @ new3 \<noteq> []" "length (new2 @ new3) \<le> 200"
        using v(4,5) l2 by simp_all
      ultimately have "\<exists>new. exchanges st' = exchanges st
          @ (GET, ''/health'', Response 200 (JObj [(''status'', JStr ''healthy'')])) # new
          \<and> new \<noteq> [] \<and> length new \<le> 200
          \<and> last (statuses new) \<noteq> 200
          \<and> butlast (statuses new) = replicate (length new - 1) 200"
        by (intro exI[of _ "new2 @ new3"] conjI)
      then show ?thesis using v(1,2) g(2) by simp
    next
      case V: (Inr V)
      from timed_calls_Inr[OF pp(2) t3[unfolded V]]
      have "V = call_results env (step st2) [0..<100]" by simp
      then have "G \<noteq> []" "V \<noteq> []"
        using g(1) length_call_results[of env "step st" "[0..<100]"]
          length_call_results[of env "step st2" "[0..<100]"] by auto
      then obtain gs vs where
        "calculate_stats_f64 G ''GPT'' = Inr gs" "calculate_stats_f64 V ''ViT'' = Inr vs"
        using calculate_stats_f64_total by blast
      with assms t2 G t3 V show ?thesis
        by (simp add: run_performance_tests_def test_health_ok)
    qed
  qed
qed

lemma run_succeeds:
  assumes "\<And>st. status (fst (app env POST ''/generate_text'' gpt_payload st)) = 200"
    and "\<And>st. status (fst (app env POST ''/process_image'' (vit_payload env) st)) = 200"
  shows "fst (run_performance_tests env st) = Inr ()"
proof (cases "run_performance_tests env st")
  case (Pair r st')
  show ?thesis
  proof (cases r)
    case (Inl e)
    let ?st1 = "st\<lparr>exchanges := exchanges st @
        [(GET, ''/health'', Response 200 (JObj [(''status'', JStr ''healthy'')]))]\<rparr>"
    have pp: "post_path ''/generate_text''" "post_path ''/process_image''"
      by (simp_all add: post_path_def)
    obtain r2 st2 where t2:
      "timed_calls env ''/generate_text'' gpt_payload [0..<100] [] ?st1 = (r2, st2)"
      by (cases "timed_calls env ''/generate_text'' gpt_payload [0..<100] [] ?st1")
    from timed_calls_succeeds[OF pp(1) assms(1), of "[0..<100]" "[]" ?st1] t2
    obtain G where G: "r2 = Inr G" by simp
    obtain r3 st3 where t3:
      "timed_calls env ''/process_image'' (vit_payload env) [0..<100] [] st2 = (r3, st3)"
      by (cases "timed_calls env ''/process_image'' (vit_payload env) [0..<100] [] st2")
    from timed_calls_succeeds[OF pp(2) assms(2), of "[0..<100]" "[]" st2] t3
    obtain V where V: "r3 = Inr V" by simp
    from Pair Inl t2 G t3 V have "\<exists>e. calculate_stats_f64 G ''GPT'' = Inl e \<or> calculate_stats_f64 V ''ViT'' = Inl e"
      by (auto simp: run_performance_tests_def test_health_ok split: sum.splits)
    moreover have "G \<noteq> []" "V \<noteq> []"
      using timed_calls_Inr[OF pp(1) t2[unfolded G]] timed_calls_Inr[OF pp(2) t3[unfolded V]]
        length_call_results[of env "step ?st1" "[0..<100]"]
        length_call_results[of env "step st2" "[0..<100]"] by auto
    ultimately show ?thesis
      using calculate_stats_f64_total[of G "''GPT''"] calculate_stats_f64_total[of V "''ViT''"] by auto
  next
    case (Inr u)
    with Pair show ?thesis by simp
  qed
qed

lemma example_env_ok:
  "status (fst (app example_env POST ''/generate_text'' gpt_payload st)) = 200"
  "status (fst (app example_env POST ''/process_image'' (vit_payload example_env) st)) = 200"
  by (simp_all add: app_post_generate_text app_post_process_image parse_TextRequest_def
      parse_ImageRequest_def required_str_def optional_int_def str_validator_def
      int_validator_def gpt_payload_def vit_payload_def generate_text_body_def
      process_image_body_def example_env_def b64decode_def b64_value_def)

lemma example_run: "fst (run_performance_tests example_env initial_state) = Inr ()"
  by (rule run_succeeds) (rule example_env_ok)+

subsection \<open>Timing\<close>

lemma call_results_nth:
  "j < length is \<Longrightarrow>
     call_results env s is ! j =
       \<lparr>request_number = int (is ! j) + 1,
        total_time = clock env (s + 4 * j + 3) - clock env (s + 4 * j),
        server_processing_time = clock env (s + 4 * j + 2) - clock env (s + 4 * j + 1)\<rparr>"
proof (induction "is" arbitrary: s j)
  case Nil
  then show ?case by simp
next
  case (Cons i rest)
  show ?case
  proof (cases j)
    case 0
    then show ?thesis by simp
  next
    case (Suc k)
    with Cons.prems have "k < length rest" by simp
    from Cons.IH[OF this, of "s + 4"] Suc show ?thesis
      by (simp add: add.assoc add.commute add.left_commute)
  qed
qed

text \<open>
  C4, as stated, fails: \<^verbatim>\<open>time.time()\<close> follows the system clock, which may be set
  back while a call is in progress. When that happens between the handler's second
  reading and the client's second reading, the \<^verbatim>\<open>processing_time\<close> of a successful
  call (one second here) exceeds the client-observed total time (half a second).
\<close>

theorem clock_set_back_call:
  "fst (timed_calls clock_set_back_env ''/generate_text'' gpt_payload [0] [] initial_state)
     = Inr [\<lparr>request_number = 1, total_time = 1 / 2, server_processing_time = 1\<rparr>]
   \<and> \<not> server_processing_time \<lparr>request_number = 1, total_time = 1 / 2, server_processing_time = 1\<rparr>
        < total_time \<lparr>request_number = 1, total_time = 1 / 2, server_processing_time = 1\<rparr>"
  by (simp add: timed_calls.simps time_time_def client_request_def app_post_generate_text
      parse_TextRequest_def required_str_def optional_int_def str_validator_def
      int_validator_def gpt_payload_def generate_text_body_def json_get_def as_float_def
      clock_set_back_env_def example_env_def initial_state_def)

text \<open>
  C4, amended. For every call of the harness to one of the two POST routes that is
  answered 200: the recorded total time and the \<^verbatim>\<open>processing_time\<close> of the response
  are differences of the four clock readings of that call (client, handler, handler,
  client). If these four readings do not decrease, the \<^verbatim>\<open>processing_time\<close> is
  non-negative and at most the total time of the call; if they strictly increase, it
  is positive and strictly less.
\<close>

theorem processing_time_within_total:
  assumes "post_path path"
    and "timed_calls env path payload is [] st = (Inr rs, st')"
    and "j < length is"
  shows "length rs = length is
       \<and> total_time (rs ! j)
           = clock env (step st + 4 * j + 3) - clock env (step st + 4 * j)
       \<and> server_processing_time (rs ! j)
           = clock env (step st + 4 * j + 2) - clock env (step st + 4 * j + 1)
       \<and> (clock env (step st + 4 * j) \<le> clock env (step st + 4 * j + 1)
            \<and> clock env (step st + 4 * j + 1) \<le> clock env (step st + 4 * j + 2)
            \<and> clock env (step st + 4 * j + 2) \<le> clock env (step st + 4 * j + 3)
          \<longrightarrow> 0 \<le> server_processing_time (rs ! j)
              \<and> server_processing_time (rs ! j) \<le> total_time (rs ! j))
       \<and> (clock env (step st + 4 * j) < clock env (step st + 4 * j + 1)
            \<and> clock env (step st + 4 * j + 1) < clock env (step st + 4 * j + 2)
            \<and> clock env (step st + 4 * j + 2) < clock env (step st + 4 * j + 3)
          \<longrightarrow> 0 < server_processing_time (rs ! j)
              \<and> server_processing_time (rs ! j) < total_time (rs ! j))"
proof -
  from timed_calls_Inr[OF assms(1,2)] have "rs = call_results env (step st) is" by simp
  then show ?thesis
    using call_results_nth[OF assms(3), of env "step st"]
    by (simp add: length_call_results)
qed

theorem processing_time_within_total_witness:
  "post_path ''/generate_text''
   \<and> timed_calls example_env ''/generate_text'' gpt_payload [0, 1] [] initial_state
       = (Inr [\<lparr>request_number = 1, total_time = 3, server_processing_time = 1\<rparr>,
               \<lparr>request_number = 2, total_time = 3, server_processing_time = 1\<rparr>],
          snd (timed_calls example_env ''/generate_text'' gpt_payload [0, 1] [] initial_state))
   \<and> (1 :: nat) < length [0 :: nat, 1]
   \<and> clock example_env (step initial_state + 4 * 1) < clock example_env (step initial_state + 4 * 1 + 1)
   \<and> clock example_env (step initial_state + 4 * 1 + 1) < clock example_env (step initial_state + 4 * 1 + 2)
   \<and> clock example_env (step initial_state + 4 * 1 + 2) < clock example_env (step initial_state + 4 * 1 + 3)
   \<and> 0 < server_processing_time \<lparr>request_number = 2, total_time = 3, server_processing_time = 1\<rparr>
   \<and> server_processing_time \<lparr>request_number = 2, total_time = 3, server_processing_time = 1\<rparr>
       < total_time \<lparr>request_number = 2, total_time = 3, server_processing_time = 1\<rparr>"
proof -
  have p: "post_path ''/generate_text''" by (simp add: post_path_def)
  have t: "timed_calls example_env ''/generate_text'' gpt_payload [0, 1] [] initial_state
       = (Inr [\<lparr>request_number = 1, total_time = 3, server_processing_time = 1\<rparr>,
               \<lparr>request_number = 2, total_time = 3, server_processing_time = 1\<rparr>],
          snd (timed_calls example_env ''/generate_text'' gpt_payload [0, 1] [] initial_state))"
    by (simp add: timed_calls.simps time_time_def client_request_def app_post_generate_text
      parse_TextRequest_def required_str_def optional_int_def str_validator_def
      int_validator_def gpt_payload_def generate_text_body_def json_get_def as_float_def
      example_env_def initial_state_def)
  have j: "(1 :: nat) < length [0 :: nat, 1]" by simp
  have c: "clock example_env (step initial_state + 4 * 1) < clock example_env (step initial_state + 4 * 1 + 1)"
    "clock example_env (step initial_state + 4 * 1 + 1) < clock example_env (step initial_state + 4 * 1 + 2)"
    "clock example_env (step initial_state + 4 * 1 + 2) < clock example_env (step initial_state + 4 * 1 + 3)"
    by (simp_all add: example_env_def)
  from processing_time_within_total[OF p t j] c
  have "0 < server_processing_time \<lparr>request_number = 2, total_time = 3, server_processing_time = 1\<rparr>
      \<and> server_processing_time \<lparr>request_number = 2, total_time = 3, server_processing_time = 1\<rparr>
       < total_time \<lparr>request_number = 2, total_time = 3, server_processing_time = 1\<rparr>"
    by (simp del: result.simps)
  with p t j c show ?thesis by blast
qed

lemma take_call_results:
  assumes "n \<le> m"
  shows "take n (call_results env s [0..<m]) = call_results env s [0..<n]"
proof -
  from assms have "[0..<m] = [0..<n] @ [n..<m]"
    by (metis le_add_diff_inverse upt_add_eq_append zero_le)
  then show ?thesis
    by (simp add: call_results_append length_call_results)
qed

lemma timed_calls_upto:
  assumes "post_path path"
    and "timed_calls env path payload [0..<m] [] st = (Inr rs, st')"
    and "n \<le> m"
  shows "\<exists>s. timed_calls env path payload [0..<n] [] st = (Inr (take n rs), s)
             \<and> files s = files st"
proof -
  from assms(3) have split: "[0..<m] = [0..<n] @ [n..<m]"
    by (metis le_add_diff_inverse upt_add_eq_append zero_le)
  from timed_calls_Inr[OF assms(1,2)] have "rs = call_results env (step st) [0..<m]" by simp
  then have "take n rs = call_results env (step st) [0..<n]"
    by (simp add: take_call_results[OF assms(3)])
  moreover from timed_calls_prefix[OF assms(1), of env payload "[0..<n]" "[n..<m]" "[]" st rs st']
    assms(2) split
  obtain s where "timed_calls env path payload [0..<n] [] st
      = (Inr (call_results env (step st) [0..<n]), s)" "files s = files st"
    by auto
  ultimately show ?thesis by simp
qed


lemma results_json_explicit:
  "results_json gpt_results gpt_stats vit_results vit_stats =
     JObj [(''gpt'',
                   JObj [(''individual_results'',
                          JArr (map (\<lambda>r. JObj [(''request_number'', JInt (request_number r)),
                                               (''total_time'', JNum (total_time r)),
                                               (''server_processing_time'',
                                                JNum (server_processing_time r))])
                                  gpt_results)),
                         (''statistics'',
                          JObj [(''average_total_time'', JNum (average_total_time gpt_stats)),
                                (''average_processing_time'',
                                 JNum (average_processing_time gpt_stats)),
                                (''min_time'', JNum (min_time gpt_stats)),
                                (''max_time'', JNum (max_time gpt_stats)),
                                (''std_dev'', JNum (std_dev gpt_stats))])]),
                  (''vit'',
                   JObj [(''individual_results'',
                          JArr (map (\<lambda>r. JObj [(''request_number'', JInt (request_number r)),
                                               (''total_time'', JNum (total_time r)),
                                               (''server_processing_time'',
                                                JNum (server_processing_time r))])
                                  vit_results)),
                         (''statistics'',
                          JObj [(''average_total_time'', JNum (average_total_time vit_stats)),
                                (''average_processing_time'',
                                 JNum (average_processing_time vit_stats)),
                                (''min_time'', JNum (min_time vit_stats)),
                                (''max_time'', JNum (max_time vit_stats)),
                                (''std_dev'', JNum (std_dev vit_stats))])])]"
  by (simp add: results_json_def result_json_def statistics_json_def fun_eq_iff)

subsection \<open>Persistence\<close>

text \<open>
  C6, as stated, fails: a complete run writes one file, not one per endpoint, and its
  name, \<^verbatim>\<open>test_results_<timestamp>.json\<close>, carries no endpoint tag. Starting from an
  empty disk, that file is the only one there is afterwards.
\<close>

theorem one_combined_results_file:
  "dom (files (snd (run_performance_tests example_env initial_state)))
     = {''test_results_20240101_120000.json''}"
proof -
  obtain st' where r: "run_performance_tests example_env initial_state = (Inr (), st')"
    using example_run by (cases "run_performance_tests example_env initial_state") auto
  have ts: "timestamp example_env k = ''20240101_120000''" for k
    by (simp add: example_env_def)
  have e: "files initial_state = Map.empty"
    by (simp add: initial_state_def)
  from run_Inr[OF r] obtain st3 content where
    "st' = st3\<lparr>files := (files initial_state)
       (''test_results_'' @ timestamp example_env (step initial_state + 800) @ ''.json''
          \<mapsto> content)\<rparr>"
    by blast
  then have "dom (files st') = {''test_results_20240101_120000.json''}"
    by (simp add: ts e)
  then show ?thesis by (simp add: r)
qed

text \<open>
  C6, amended. A complete run writes exactly one JSON file, named
  \<^verbatim>\<open>test_results_<timestamp>.json\<close>, which holds under the keys \<^verbatim>\<open>gpt\<close> and \<^verbatim>\<open>vit\<close>
  the full list of 100 per-call records of each endpoint and the statistics computed
  from that list. The lists only grow during the run (after \<open>n\<close> iterations a loop
  holds the first \<open>n\<close> records of its final list), and no file is written before both
  loops and both statistics are complete.
\<close>

theorem results_saved_once_at_end:
  assumes "run_performance_tests env st = (Inr (), st')"
  shows "\<exists>gpt_results gpt_stats vit_results vit_stats st1 st2 st3.
      test_health env st = (Inr (), st1)
    \<and> timed_calls env ''/generate_text'' gpt_payload [0..<100] [] st1 = (Inr gpt_results, st2)
    \<and> timed_calls env ''/process_image'' (vit_payload env) [0..<100] [] st2
        = (Inr vit_results, st3)
    \<and> length gpt_results = 100 \<and> length vit_results = 100
    \<and> calculate_stats_f64 gpt_results ''GPT'' = Inr gpt_stats
    \<and> calculate_stats_f64 vit_results ''ViT'' = Inr vit_stats
    \<and> files st1 = files st \<and> files st2 = files st \<and> files st3 = files st
    \<and> files st' = (files st)
          (''test_results_'' @ timestamp env (step st3) @ ''.json'' \<mapsto>
           JObj [(''gpt'',
                   JObj [(''individual_results'',
                          JArr (map (\<lambda>r. JObj [(''request_number'', JInt (request_number r)),
                                               (''total_time'', JNum (total_time r)),
                                               (''server_processing_time'',
                                                JNum (server_processing_time r))])
                                  gpt_results)),
                         (''statistics'',
                          JObj [(''average_total_time'', JNum (average_total_time gpt_stats)),
                                (''average_processing_time'',
                                 JNum (average_processing_time gpt_stats)),
                                (''min_time'', JNum (min_time gpt_stats)),
                                (''max_time'', JNum (max_time gpt_stats)),
                                (''std_dev'', JNum (std_dev gpt_stats))])]),
                  (''vit'',
                   JObj [(''individual_results'',
                          JArr (map (\<lambda>r. JObj [(''request_number'', JInt (request_number r)),
                                               (''total_time'', JNum (total_time r)),
                                               (''server_processing_time'',
                                                JNum (server_processing_time r))])
                                  vit_results)),
                         (''statistics'',
                          JObj [(''average_total_time'', JNum (average_total_time vit_stats)),
                                (''average_processing_time'',
                                 JNum (average_processing_time vit_stats)),
                                (''min_time'', JNum (min_time vit_stats)),
                                (''max_time'', JNum (max_time vit_stats)),
                                (''std_dev'', JNum (std_dev vit_stats))])])])
    \<and> (\<forall>n\<le>100. \<exists>s. timed_calls env ''/generate_text'' gpt_payload [0..<n] [] st1
                        = (Inr (take n gpt_results), s) \<and> files s = files st)
    \<and> (\<forall>n\<le>100. \<exists>s. timed_calls env ''/process_image'' (vit_payload env) [0..<n] [] st2
                        = (Inr (take n vit_results), s) \<and> files s = files st)"
proof -
  have pp: "post_path ''/generate_text''" "post_path ''/process_image''"
    by (simp_all add: post_path_def)
  define G where "G = call_results env (step st) [0..<100]"
  define V where "V = call_results env (step st + 400) [0..<100]"
  have len: "length G = 100" "length V = 100"
    by (simp_all add: G_def V_def length_call_results)
  from run_Inr[OF assms] obtain st1 st2 st3 gs vs where r:
    "test_health env st = (Inr (), st1)"
    "timed_calls env ''/generate_text'' gpt_payload [0..<100] [] st1 = (Inr G, st2)"
    "timed_calls env ''/process_image'' (vit_payload env) [0..<100] [] st2 = (Inr V, st3)"
    "calculate_stats_f64 G ''GPT'' = Inr gs"
    "calculate_stats_f64 V ''ViT'' = Inr vs"
    "files st3 = files st" "step st3 = step st + 800"
    "st' = st3\<lparr>files := (files st)
          (''test_results_'' @ timestamp env (step st + 800) @ ''.json'' \<mapsto>
           results_json G gs V vs)\<rparr>"
    unfolding G_def V_def by blast
  have f1: "files st1 = files st"
    using r(1) by (auto simp: test_health_ok)
  have f2: "files st2 = files st"
    using timed_calls_Inr[OF pp(1) r(2)] f1 by simp
  have a: "\<forall>n\<le>100. \<exists>s. timed_calls env ''/generate_text'' gpt_payload [0..<n] [] st1
             = (Inr (take n G), s) \<and> files s = files st"
    using timed_calls_upto[OF pp(1) r(2)] f1 by simp
  have b: "\<forall>n\<le>100. \<exists>s. timed_calls env ''/process_image'' (vit_payload env) [0..<n] [] st2
             = (Inr (take n V), s) \<and> files s = files st"
    using timed_calls_upto[OF pp(2) r(3)] f2 by simp
  have f': "files st' = (files st)
          (''test_results_'' @ timestamp env (step st3) @ ''.json'' \<mapsto>
           results_json G gs V vs)"
    using r(7,8) by simp
  from r(1,2,3) len r(4,5) f1 f2 r(6) f'[unfolded results_json_explicit] a b show ?thesis
    by blast
qed

theorem results_saved_once_at_end_witness:
  "run_performance_tests example_env initial_state
     = (Inr (), snd (run_performance_tests example_env initial_state))
   \<and> (\<exists>gpt vit. files (snd (run_performance_tests example_env initial_state))
         = [''test_results_20240101_120000.json'' \<mapsto> JObj [(''gpt'', gpt), (''vit'', vit)]])"
proof -
  have h: "run_performance_tests example_env initial_state
     = (Inr (), snd (run_performance_tests example_env initial_state))"
    using example_run by (simp add: prod_eq_iff)
  have ts: "timestamp example_env k = ''20240101_120000''" for k
    by (simp add: example_env_def)
  have e: "files initial_state = Map.empty"
    by (simp add: initial_state_def)
  from results_saved_once_at_end[OF h] obtain gpt vit and st3 :: state where
    "files (snd (run_performance_tests example_env initial_state))
       = (files initial_state)
           (''test_results_'' @ timestamp example_env (step st3) @ ''.json''
              \<mapsto> JObj [(''gpt'', gpt), (''vit'', vit)])"
    by blast
  then have "files (snd (run_performance_tests example_env initial_state))
         = [''test_results_20240101_120000.json'' \<mapsto> JObj [(''gpt'', gpt), (''vit'', vit)]]"
    by (simp add: ts e)
  with h show ?thesis by blast
qed

subsection \<open>The calls of a run\<close>

lemma out_of_memory_third_call:
  "fst (timed_calls out_of_memory_env ''/generate_text'' gpt_payload [0, 1, 2] []
          (initial_state\<lparr>exchanges := xs\<rparr>)) = Inl AssertionError"
  by (simp add: timed_calls.simps time_time_def client_request_def app_post_generate_text
      parse_TextRequest_def required_str_def optional_int_def str_validator_def
      int_validator_def gpt_payload_def generate_text_body_def json_get_def as_float_def
      out_of_memory_env_def example_env_def initial_state_def)


lemma out_of_memory_outcome:
  "fst (run_performance_tests out_of_memory_env initial_state) = Inl AssertionError
   \<and> snd (run_performance_tests out_of_memory_env initial_state) =
     snd (timed_calls out_of_memory_env ''/generate_text'' gpt_payload [0, 1, 2] []
       (initial_state\<lparr>exchanges :=
          [(GET, ''/health'', Response 200 (JObj [(''status'', JStr ''healthy'')]))]\<rparr>))"
proof -
  have split: "[0..<100] = [0, 1, 2] @ [3..<100]"
    using upt_add_eq_append[of 0 3 97] by (simp add: upt_rec)
  let ?st1 = "initial_state\<lparr>exchanges :=
        [(GET, ''/health'', Response 200 (JObj [(''status'', JStr ''healthy'')]))]\<rparr>"
  obtain st2 where t: "timed_calls out_of_memory_env ''/generate_text'' gpt_payload [0, 1, 2] [] ?st1
      = (Inl AssertionError, st2)"
    using out_of_memory_third_call[of
        "[(GET, ''/health'', Response 200 (JObj [(''status'', JStr ''healthy'')]))]"]
    by (cases "timed_calls out_of_memory_env ''/generate_text'' gpt_payload [0, 1, 2] [] ?st1") simp
  then have "timed_calls out_of_memory_env ''/generate_text'' gpt_payload [0..<100] [] ?st1
      = (Inl AssertionError, st2)"
    unfolding split by (simp only: timed_calls_append prod.case sum.case)
  moreover have "exchanges initial_state = []" by (simp add: initial_state_def)
  ultimately have run: "run_performance_tests out_of_memory_env initial_state
      = (Inl AssertionError, st2)"
    by (simp add: run_performance_tests_def test_health_ok)
  from t have "snd (timed_calls out_of_memory_env ''/generate_text'' gpt_payload [0, 1, 2] [] ?st1)
      = st2"
    by (simp only: snd_conv)
  with run show ?thesis
    by (simp only: fst_conv snd_conv simp_thms)
qed

lemma out_of_memory_run:
  "fst (run_performance_tests out_of_memory_env initial_state) = Inl AssertionError"
  using out_of_memory_outcome by simp




text \<open>
  C10. Whatever the environment does, a run either sees status 200 on every exchange,
  in which case it completes after 201 exchanges (the health check and 200 calls) and
  writes the results file, or it stops with an \<^verbatim>\<open>AssertionError\<close> at the first
  exchange whose status is not 200 (the last one it made, all earlier ones being 200)
  and leaves the files as they were.
\<close>

theorem abort_writes_nothing:
  assumes "run_performance_tests env st = (r, st')"
  shows "\<exists>new. exchanges st' = exchanges st @ new
      \<and> (if \<forall>c\<in>set (statuses new). c = 200
          then r = Inr () \<and> length new = 201
             \<and> (\<exists>name content. files st' = (files st)(name \<mapsto> content))
          else r = Inl AssertionError \<and> files st' = files st
             \<and> last (statuses new) \<noteq> 200
             \<and> (\<forall>c\<in>set (butlast (statuses new)). c = 200))"
proof (cases r)
  case (Inl e)
  from run_Inl[OF assms[unfolded Inl]] obtain new where n:
    "e = AssertionError" "files st' = files st"
    "exchanges st' = exchanges st
          @ (GET, ''/health'', Response 200 (JObj [(''status'', JStr ''healthy'')])) # new"
    "new \<noteq> []" "last (statuses new) \<noteq> 200"
    "butlast (statuses new) = replicate (length new - 1) 200"
    by blast
  let ?new = "(GET, ''/health'', Response 200 (JObj [(''status'', JStr ''healthy'')])) # new"
  have ne: "statuses new \<noteq> []" using n(4) by (simp add: statuses_def)
  have s: "statuses ?new = 200 # statuses new" by (simp add: statuses_def)
  have l: "last (statuses ?new) \<noteq> 200" using n(5) ne by (simp add: s)
  then have "\<not> (\<forall>c\<in>set (statuses ?new). c = 200)"
    using last_in_set[of "statuses ?new"] s by (metis list.distinct(1))
  moreover have "\<forall>c\<in>set (butlast (statuses ?new)). c = 200"
    using n(6) ne by (simp add: s)
  ultimately have "exchanges st' = exchanges st @ ?new
      \<and> (if \<forall>c\<in>set (statuses ?new). c = 200
          then r = Inr () \<and> length ?new = 201
             \<and> (\<exists>name content. files st' = (files st)(name \<mapsto> content))
          else r = Inl AssertionError \<and> files st' = files st
             \<and> last (statuses ?new) \<noteq> 200
             \<and> (\<forall>c\<in>set (butlast (statuses ?new)). c = 200))"
    using n(1,2,3) l Inl by simp
  then show ?thesis by (rule exI[of _ ?new])
next
  case (Inr u)
  from run_Inr[OF assms[unfolded Inr, simplified]] obtain st3 name content new where n:
    "st' = st3\<lparr>files := (files st)(name \<mapsto> content)\<rparr>"
    "exchanges st3 = exchanges st
          @ (GET, ''/health'', Response 200 (JObj [(''status'', JStr ''healthy'')])) # new"
    "statuses new = replicate 200 200"
    by blast
  let ?new = "(GET, ''/health'', Response 200 (JObj [(''status'', JStr ''healthy'')])) # new"
  have s: "statuses ?new = 200 # replicate 200 200" using n(3) by (simp add: statuses_def)
  have "length (statuses ?new) = 201" by (simp add: s)
  then have len: "length ?new = 201" by (simp add: statuses_def)
  have all: "\<forall>c\<in>set (statuses ?new). c = 200" by (simp add: s)
  have "\<exists>name content. files st' = (files st)(name \<mapsto> content)"
    using n(1) by auto
  with all len have "exchanges st' = exchanges st @ ?new
      \<and> (if \<forall>c\<in>set (statuses ?new). c = 200
          then r = Inr () \<and> length ?new = 201
             \<and> (\<exists>name content. files st' = (files st)(name \<mapsto> content))
          else r = Inl AssertionError \<and> files st' = files st
             \<and> last (statuses ?new) \<noteq> 200
             \<and> (\<forall>c\<in>set (butlast (statuses ?new)). c = 200))"
    using n(1,2) Inr by simp
  then show ?thesis by (rule exI[of _ ?new])
qed

theorem abort_writes_nothing_witness:
  "fst (run_performance_tests out_of_memory_env initial_state) = Inl AssertionError
   \<and> files (snd (run_performance_tests out_of_memory_env initial_state)) = Map.empty"
proof -
  have h: "run_performance_tests out_of_memory_env initial_state
     = (Inl AssertionError, snd (run_performance_tests out_of_memory_env initial_state))"
    using out_of_memory_run by (simp add: prod_eq_iff)
  from abort_writes_nothing[OF h]
  have "files (snd (run_performance_tests out_of_memory_env initial_state))
          = files initial_state"
    by (auto split: if_splits)
  then have "files (snd (run_performance_tests out_of_memory_env initial_state)) = Map.empty"
    by (simp add: initial_state_def)
  with out_of_memory_run show ?thesis by blast
qed

end
